theory Spec2Isabelle
  imports Complex_Main "HOL-Library.Char_ord" "HOL-Library.List_Lexorder"
begin

section \<open>Python values\<close>

text \<open>
  The three programs work on what \<^verbatim>\<open>json.loads\<close> and \<^verbatim>\<open>json.load\<close> return: \<^verbatim>\<open>None\<close>,
  booleans, integers, floats, strings, lists and dictionaries. A dictionary is the list of
  its items in insertion order, so its keys are pairwise different. \<open>JFloat r\<close> is the
  finite float of value \<open>r\<close>; the non-finite floats that \<^verbatim>\<open>json.loads\<close> accepts beyond
  the JSON grammar (\<^verbatim>\<open>NaN\<close>, \<^verbatim>\<open>Infinity\<close>) are not represented. A string is a list of
  characters.
\<close>

datatype json =
    JNull
  | JBool bool
  | JInt int
  | JFloat rat
  | JStr string
  | JArr "json list"
  | JObj "(string \<times> json) list"

text \<open>
  The exceptions (subclasses of \<^verbatim>\<open>Exception\<close>) that the code can meet. \<open>OtherError\<close>
  stands for any other one, with its message: an error of the object store, of the file
  system, of the decoder.
\<close>

datatype py_error =
    AttributeError
  | TypeError
  | JSONDecodeError
  | EOFError
  | OtherError string

text \<open>How a run of a program ends: it returns, it calls \<^verbatim>\<open>sys.exit(n)\<close>, or an exception
  is not handled.\<close>

datatype outcome = Returned | Exited int | Raised py_error

fun exit_code :: "outcome \<Rightarrow> int" where
  "exit_code Returned = 0"
| "exit_code (Exited n) = n"
| "exit_code (Raised e) = 1"

text \<open>Truth value testing (\<^verbatim>\<open>if x\<close>, \<^verbatim>\<open>not x\<close>).\<close>

fun truthy :: "json \<Rightarrow> bool" where
  "truthy JNull = False"
| "truthy (JBool b) = b"
| "truthy (JInt i) = (i \<noteq> 0)"
| "truthy (JFloat r) = (r \<noteq> 0)"
| "truthy (JStr s) = (s \<noteq> [])"
| "truthy (JArr xs) = (xs \<noteq> [])"
| "truthy (JObj kvs) = (kvs \<noteq> [])"

text \<open>\<^verbatim>\<open>x.get(k, default)\<close>: only a dictionary has the method.\<close>

definition py_get :: "json \<Rightarrow> string \<Rightarrow> json \<Rightarrow> py_error + json" where
  "py_get obj k dflt =
     (case obj of
        JObj kvs \<Rightarrow> Inr (case map_of kvs k of Some v \<Rightarrow> v | None \<Rightarrow> dflt)
      | _ \<Rightarrow> Inl AttributeError)"

text \<open>\<^verbatim>\<open>for x in v\<close>: a list gives its elements, a string its characters, a dictionary its
  keys; nothing else is iterable.\<close>

definition py_iter :: "json \<Rightarrow> py_error + json list" where
  "py_iter v =
     (case v of
        JArr xs \<Rightarrow> Inr xs
      | JStr s \<Rightarrow> Inr (map (\<lambda>c. JStr [c]) s)
      | JObj kvs \<Rightarrow> Inr (map (\<lambda>kv. JStr (fst kv)) kvs)
      | _ \<Rightarrow> Inl TypeError)"

text \<open>\<^verbatim>\<open>len(v)\<close>.\<close>

definition py_len :: "json \<Rightarrow> py_error + nat" where
  "py_len v =
     (case v of
        JArr xs \<Rightarrow> Inr (length xs)
      | JStr s \<Rightarrow> Inr (length s)
      | JObj kvs \<Rightarrow> Inr (length kvs)
      | _ \<Rightarrow> Inl TypeError)"

text \<open>
  Dictionary keys. Python compares keys by hash and equality, under which \<^verbatim>\<open>1\<close>,
  \<^verbatim>\<open>1.0\<close> and \<^verbatim>\<open>True\<close> are one key; lists and dictionaries are not hashable.
\<close>

datatype pykey = KNone | KNum rat | KStr string

fun hash_key :: "json \<Rightarrow> py_error + pykey" where
  "hash_key JNull = Inr KNone"
| "hash_key (JBool b) = Inr (KNum (if b then 1 else 0))"
| "hash_key (JInt i) = Inr (KNum (of_int i))"
| "hash_key (JFloat r) = Inr (KNum r)"
| "hash_key (JStr s) = Inr (KStr s)"
| "hash_key (JArr xs) = Inl TypeError"
| "hash_key (JObj kvs) = Inl TypeError"

text \<open>\<^verbatim>\<open>d[k] = v\<close> on a dictionary with any hashable keys: an equal key keeps its place and
  its first spelling and takes the new value, a new key goes last.\<close>

fun dict_update :: "pykey \<Rightarrow> json \<Rightarrow> 'v \<Rightarrow> (json \<times> 'v) list \<Rightarrow> (json \<times> 'v) list" where
  "dict_update h k v [] = [(k, v)]"
| "dict_update h k v ((k', v') # d) =
     (if hash_key k' = Inr h then (k', v) # d else (k', v') # dict_update h k v d)"

definition dict_setitem :: "(json \<times> 'v) list \<Rightarrow> json \<Rightarrow> 'v \<Rightarrow> py_error + (json \<times> 'v) list" where
  "dict_setitem d k v =
     (case hash_key k of Inl e \<Rightarrow> Inl e | Inr h \<Rightarrow> Inr (dict_update h k v d))"

text \<open>\<^verbatim>\<open>str(n)\<close> of a natural number, for the counts the programs print.\<close>

fun str_nat :: "nat \<Rightarrow> string" where
  "str_nat n =
     (if n < 10 then [''0123456789'' ! n]
      else str_nat (n div 10) @ [''0123456789'' ! (n mod 10)])"

declare str_nat.simps [simp del]

section \<open>The Fetcher: \<^verbatim>\<open>fetch_file_ids.py\<close>\<close>

text \<open>
  \<^verbatim>\<open>json.loads(field_value)\<close>. The decoder of a string is a parameter \<open>decode\<close>, which
  returns the value or the exception raised; any other argument that the records can hold
  raises \<^verbatim>\<open>TypeError\<close>.
\<close>

definition json_loads :: "(string \<Rightarrow> py_error + json) \<Rightarrow> json \<Rightarrow> py_error + json" where
  "json_loads decode v = (case v of JStr s \<Rightarrow> decode s | _ \<Rightarrow> Inl TypeError)"

definition parse_file_field :: "(string \<Rightarrow> py_error + json) \<Rightarrow> json \<Rightarrow> py_error + json" where
  "parse_file_field decode field_value =
     (if \<not> truthy field_value then Inr (JArr [])
      else (case json_loads decode field_value of
              Inr v \<Rightarrow> Inr v
            | Inl e \<Rightarrow> if e = JSONDecodeError \<or> e = TypeError then Inr (JArr []) else Inl e))"

text \<open>The comprehension \<^verbatim>\<open>[f.get("fileId") for f in files if f.get("fileId")]\<close> over the
  elements of \<open>files\<close>.\<close>

fun file_id_list :: "json list \<Rightarrow> py_error + json list" where
  "file_id_list [] = Inr []"
| "file_id_list (f # fs) =
     (case py_get f ''fileId'' JNull of
        Inl e \<Rightarrow> Inl e
      | Inr v \<Rightarrow>
          (case file_id_list fs of
             Inl e \<Rightarrow> Inl e
           | Inr vs \<Rightarrow> Inr (if truthy v then v # vs else vs)))"

definition category_ids :: "json \<Rightarrow> py_error + json list" where
  "category_ids files =
     (case py_iter files of Inl e \<Rightarrow> Inl e | Inr fs \<Rightarrow> file_id_list fs)"

text \<open>
  The body of the loop of \<^verbatim>\<open>extract_file_ids\<close> for one record: \<open>Inr None\<close> is
  \<^verbatim>\<open>continue\<close>, \<open>Inr (Some (k, v))\<close> is the assignment \<^verbatim>\<open>result[k] = v\<close> that follows.
\<close>

definition extract_record ::
  "(string \<Rightarrow> py_error + json) \<Rightarrow> json \<Rightarrow> py_error + (json \<times> json) option" where
  "extract_record decode record =
     (case py_get record ''metadata'' (JObj []) of
        Inl e \<Rightarrow> Inl e
      | Inr metadata \<Rightarrow>
     (case py_get metadata ''submissionId'' JNull of
        Inl e \<Rightarrow> Inl e
      | Inr submission_id \<Rightarrow>
     if \<not> truthy submission_id then Inr None
     else
     (case py_get metadata ''nucleotideAlignment'' JNull of
        Inl e \<Rightarrow> Inl e
      | Inr alignment_field \<Rightarrow>
     (case parse_file_field decode alignment_field of
        Inl e \<Rightarrow> Inl e
      | Inr alignment_files \<Rightarrow>
     (case py_get metadata ''siloReads'' JNull of
        Inl e \<Rightarrow> Inl e
      | Inr silo_field \<Rightarrow>
     (case parse_file_field decode silo_field of
        Inl e \<Rightarrow> Inl e
      | Inr silo_files \<Rightarrow>
     (case category_ids alignment_files of
        Inl e \<Rightarrow> Inl e
      | Inr alignment_ids \<Rightarrow>
     (case category_ids silo_files of
        Inl e \<Rightarrow> Inl e
      | Inr silo_ids \<Rightarrow>
          Inr (Some (submission_id,
                 JObj [(''nucleotideAlignment'', JArr alignment_ids),
                       (''siloReads'', JArr silo_ids)]))))))))))"

fun extract_loop ::
  "(string \<Rightarrow> py_error + json) \<Rightarrow> json list \<Rightarrow> (json \<times> json) list
     \<Rightarrow> py_error + (json \<times> json) list" where
  "extract_loop decode [] result = Inr result"
| "extract_loop decode (record # records) result =
     (case extract_record decode record of
        Inl e \<Rightarrow> Inl e
      | Inr None \<Rightarrow> extract_loop decode records result
      | Inr (Some (k, v)) \<Rightarrow>
          (case dict_setitem result k v of
             Inl e \<Rightarrow> Inl e
           | Inr result' \<Rightarrow> extract_loop decode records result'))"

definition extract_file_ids ::
  "(string \<Rightarrow> py_error + json) \<Rightarrow> json list \<Rightarrow> py_error + (json \<times> json) list" where
  "extract_file_ids decode records = extract_loop decode records []"

text \<open>The submission identifier that a record carries: the value that the loop tests.\<close>

definition submission_id_of :: "json \<Rightarrow> py_error + json" where
  "submission_id_of record =
     (case py_get record ''metadata'' (JObj []) of
        Inl e \<Rightarrow> Inl e
      | Inr metadata \<Rightarrow> py_get metadata ''submissionId'' JNull)"

text \<open>The non-empty submission identifiers of the records, one for each record that has
  one, in input order.\<close>

definition nonempty_ids :: "json list \<Rightarrow> json list" where
  "nonempty_ids records =
     concat (map (\<lambda>r. case submission_id_of r of
                         Inr sid \<Rightarrow> if truthy sid then [sid] else []
                       | Inl e \<Rightarrow> []) records)"

subsection \<open>Notions used to state the Fetcher's properties\<close>

text \<open>The keys of a dictionary as Python compares them, and the values stored under the
  keys equal to \<open>k\<close> (a dictionary has at most one).\<close>

definition dict_keys :: "(json \<times> 'v) list \<Rightarrow> (py_error + pykey) list" where
  "dict_keys d = map (\<lambda>kv. hash_key (fst kv)) d"

definition entries_for :: "(json \<times> 'v) list \<Rightarrow> json \<Rightarrow> 'v list" where
  "entries_for d k = map snd (filter (\<lambda>kv. hash_key (fst kv) = hash_key k) d)"

text \<open>A record that carries a non-empty submission identifier.\<close>

definition has_submission_id :: "json \<Rightarrow> bool" where
  "has_submission_id record =
     (case submission_id_of record of Inr sid \<Rightarrow> truthy sid | Inl e \<Rightarrow> False)"

text \<open>What \<^verbatim>\<open>f.get("fileId")\<close> gives for an element of a parsed file array.\<close>

definition file_id_of :: "json \<Rightarrow> json" where
  "file_id_of f = (case py_get f ''fileId'' JNull of Inr v \<Rightarrow> v | Inl e \<Rightarrow> JNull)"

text \<open>What \<^verbatim>\<open>metadata.get(c)\<close> gives for a record: \<open>JNull\<close> when the field is absent.\<close>

definition field_of :: "json \<Rightarrow> string \<Rightarrow> json" where
  "field_of record c =
     (case py_get record ''metadata'' (JObj []) of
        Inl e \<Rightarrow> JNull
      | Inr metadata \<Rightarrow> (case py_get metadata c JNull of Inl e \<Rightarrow> JNull | Inr v \<Rightarrow> v))"

text \<open>
  The field values on which \<^verbatim>\<open>parse_file_field\<close> returns \<^verbatim>\<open>[]\<close> through its own guard or its
  \<^verbatim>\<open>except\<close> clause: a value that is absent or \<^verbatim>\<open>null\<close>, a value that is not a string (it is
  falsy, or \<^verbatim>\<open>json.loads\<close> raises \<^verbatim>\<open>TypeError\<close> on it), the empty string, and a string on which
  the decoder raises \<^verbatim>\<open>JSONDecodeError\<close> or \<^verbatim>\<open>TypeError\<close>. A string on which the decoder
  raises anything else, or which it decodes, is not such a value.
\<close>

definition falls_back :: "(string \<Rightarrow> py_error + json) \<Rightarrow> json \<Rightarrow> bool" where
  "falls_back decode v =
     (case v of
        JStr s \<Rightarrow> s = [] \<or> decode s = Inl JSONDecodeError \<or> decode s = Inl TypeError
      | _ \<Rightarrow> True)"

text \<open>
  Concrete inputs. \<open>example_decode\<close> is \<^verbatim>\<open>json.loads\<close> on the strings that the examples
  use: five JSON texts, and \<^verbatim>\<open>JSONDecodeError\<close> on the others, none of which is JSON.
  \<open>example_record sid field\<close> is the line
  \<^verbatim>\<open>{"metadata": {"submissionId": sid, "nucleotideAlignment": field}}\<close>.
\<close>

definition example_decode :: "string \<Rightarrow> py_error + json" where
  \<open>example_decode s =
     (if s = ''[{"fileId": "a1"}, {"fileId": null}, {"fileId": "a2"}]''
      then Inr (JArr [JObj [(''fileId'', JStr ''a1'')], JObj [(''fileId'', JNull)],
                      JObj [(''fileId'', JStr ''a2'')]])
      else if s = ''[1]'' then Inr (JArr [JInt 1])
      else if s = ''[]'' then Inr (JArr [])
      else if s = ''null'' then Inr JNull
      else if s = ''5'' then Inr (JInt 5)
      else Inl JSONDecodeError)\<close>

definition example_record :: "string \<Rightarrow> string \<Rightarrow> json" where
  "example_record sid field =
     JObj [(''metadata'',
            JObj [(''submissionId'', JStr sid), (''nucleotideAlignment'', JStr field)])]"

section \<open>The world of the two deleters\<close>

text \<open>
  What a run does to its surroundings, in order: a line printed, the document opened, the
  prompt read with \<^verbatim>\<open>input\<close>, the client created, a \<^verbatim>\<open>delete_object\<close> call with its bucket
  and key, a \<^verbatim>\<open>list_objects_v2\<close> call with its bucket, prefix and continuation token and
  the keys of the page that it returned.
\<close>

datatype event =
    Print string
  | ReadFile string
  | Input string
  | Client string string string string
  | DeleteObject string json
  | ListObjects string string "string option" "string list"

text \<open>One page of a listing: the keys under \<^verbatim>\<open>Contents\<close> (the entry is missing in an empty
  page) and the token of the next page, if the listing is truncated.\<close>

record page =
  contents :: "string list option"
  next_token :: "string option"

text \<open>
  The surroundings that the programs call, over a store of any type \<open>'s\<close>:
  \<^verbatim>\<open>json.load\<close> of the file at a path, the line that \<^verbatim>\<open>input\<close> reads (or its exception),
  \<^verbatim>\<open>boto3.client\<close> (the exception it raises, if any), the two operations of the client,
  \<^verbatim>\<open>str\<close> of a value that is not a string, and \<^verbatim>\<open>str\<close> of an exception.
\<close>

record 's world =
  read_json :: "string \<Rightarrow> py_error + json"
  read_input :: "py_error + string"
  boto3_client :: "string \<Rightarrow> string \<Rightarrow> string \<Rightarrow> string \<Rightarrow> py_error option"
  delete_object :: "string \<Rightarrow> json \<Rightarrow> 's \<Rightarrow> py_error option \<times> 's"
  list_objects_v2 :: "string \<Rightarrow> string \<Rightarrow> string option \<Rightarrow> 's \<Rightarrow> py_error + page"
  py_str :: "json \<Rightarrow> string"
  exc_str :: "py_error \<Rightarrow> string"

text \<open>A finished run: what it did, the store it leaves, how it ended.\<close>

record 's run =
  trace :: "event list"
  store :: 's
  status :: outcome

fun is_delete :: "event \<Rightarrow> bool" where
  "is_delete (DeleteObject b k) = True"
| "is_delete e = False"

fun is_input :: "event \<Rightarrow> bool" where
  "is_input (Input p) = True"
| "is_input e = False"

fun is_client :: "event \<Rightarrow> bool" where
  "is_client (Client a b c d) = True"
| "is_client e = False"

fun is_list :: "event \<Rightarrow> bool" where
  "is_list (ListObjects b p t ks) = True"
| "is_list e = False"

text \<open>\<^verbatim>\<open>s.startswith(p)\<close>, and a value inside an f-string.\<close>

definition startswith :: "string \<Rightarrow> string \<Rightarrow> bool" where
  "startswith s p = (take (length p) s = p)"

definition format_value :: "(json \<Rightarrow> string) \<Rightarrow> json \<Rightarrow> string" where
  "format_value str v = (case v of JStr s \<Rightarrow> s | _ \<Rightarrow> str v)"

section \<open>The Selective Deleter: \<^verbatim>\<open>delete_by_file_ids.py\<close>\<close>

text \<open>The dictionary \<^verbatim>\<open>args\<close> of \<^verbatim>\<open>parse_args\<close>, with its keys \<^verbatim>\<open>"dry_run"\<close> and
  \<^verbatim>\<open>"file_type"\<close> (\<open>None\<close>: both types).\<close>

record options =
  arg_dry_run :: bool
  arg_file_type :: "string option"

text \<open>
  The loop of \<^verbatim>\<open>parse_args\<close> over \<^verbatim>\<open>argv[i:]\<close>. \<open>Inl msg\<close>: the message is printed and
  the program exits with code 1.
\<close>

fun parse_args_loop ::
  "string list \<Rightarrow> string list \<Rightarrow> options \<Rightarrow> string + (string list \<times> options)" where
  "parse_args_loop [] positional args = Inr (positional, args)"
| "parse_args_loop (a # rest) positional args =
     (if a = ''--dry-run'' then parse_args_loop rest positional (args\<lparr>arg_dry_run := True\<rparr>)
      else if a = ''--type'' then
        (case rest of
           v # rest' \<Rightarrow> parse_args_loop rest' positional (args\<lparr>arg_file_type := Some v\<rparr>)
         | [] \<Rightarrow> Inl ''Error: --type requires a value (nucleotideAlignment or siloReads)'')
      else parse_args_loop rest (positional @ [a]) args)"

definition parse_args :: "string list \<Rightarrow> string + (string list \<times> options)" where
  "parse_args argv = parse_args_loop argv [] \<lparr>arg_dry_run = False, arg_file_type = None\<rparr>"

type_synonym target = "string \<times> string \<times> json"

text \<open>\<^verbatim>\<open>s3_key = f"{prefix}{file_id}" if prefix else file_id\<close>.\<close>

definition s3_key_of :: "(json \<Rightarrow> string) \<Rightarrow> string \<Rightarrow> json \<Rightarrow> json" where
  "s3_key_of str prefix file_id =
     (if prefix \<noteq> [] then JStr (prefix @ format_value str file_id) else file_id)"

text \<open>The inner loop over \<^verbatim>\<open>ids.get(category, [])\<close>: the targets it appends.\<close>

definition category_targets ::
  "(json \<Rightarrow> string) \<Rightarrow> string \<Rightarrow> string \<Rightarrow> json \<Rightarrow> string \<Rightarrow> py_error + target list" where
  "category_targets str prefix submission_id ids category =
     (case py_get ids category (JArr []) of
        Inl e \<Rightarrow> Inl e
      | Inr id_list \<Rightarrow>
          (case py_iter id_list of
             Inl e \<Rightarrow> Inl e
           | Inr file_ids \<Rightarrow>
               Inr (map (\<lambda>file_id. (submission_id, category, s3_key_of str prefix file_id))
                      file_ids)))"

fun collect_loop ::
  "(json \<Rightarrow> string) \<Rightarrow> string \<Rightarrow> string option \<Rightarrow> (string \<times> json) list \<Rightarrow> target list
     \<Rightarrow> py_error + target list" where
  "collect_loop str prefix file_type [] files = Inr files"
| "collect_loop str prefix file_type ((submission_id, ids) # items) files =
     (case (if file_type = None \<or> file_type = Some ''nucleotideAlignment''
            then category_targets str prefix submission_id ids ''nucleotideAlignment''
            else Inr []) of
        Inl e \<Rightarrow> Inl e
      | Inr alignment \<Rightarrow>
          (case (if file_type = None \<or> file_type = Some ''siloReads''
                 then category_targets str prefix submission_id ids ''siloReads''
                 else Inr []) of
             Inl e \<Rightarrow> Inl e
           | Inr silo \<Rightarrow> collect_loop str prefix file_type items (files @ alignment @ silo)))"

definition collect_files_to_delete ::
  "(json \<Rightarrow> string) \<Rightarrow> json \<Rightarrow> string \<Rightarrow> string option \<Rightarrow> py_error + target list" where
  "collect_files_to_delete str file_ids prefix file_type =
     (case file_ids of
        JObj items \<Rightarrow> collect_loop str prefix file_type items []
      | _ \<Rightarrow> Inl AttributeError)"

text \<open>The lines of the preview: the first ten targets, then the count of the others.\<close>

definition preview :: "(json \<Rightarrow> string) \<Rightarrow> target list \<Rightarrow> string list" where
  "preview str files_to_delete =
     [''\<newline>Files to delete:'', replicate 80 CHR ''-''] @
     map (\<lambda>(submission_id, ftype, s3_key).
            ''  ['' @ ftype @ ''] '' @ format_value str s3_key @
            '' (submission: '' @ submission_id @ '')'')
         (take 10 files_to_delete) @
     (if 10 < length files_to_delete
      then [''  ... and '' @ str_nat (length files_to_delete - 10) @ '' more files'']
      else []) @
     [replicate 80 CHR ''-'']"

text \<open>
  The deletion loop: one call for each target, in order; an exception of the call is caught
  (\<^verbatim>\<open>except Exception\<close>) and counted.
\<close>

fun delete_loop ::
  "'s world \<Rightarrow> string \<Rightarrow> target list \<Rightarrow> event list \<Rightarrow> 's \<Rightarrow> nat \<Rightarrow> nat
     \<Rightarrow> event list \<times> 's \<times> nat \<times> nat" where
  "delete_loop w bucket_name [] tr s deleted_count error_count =
     (tr, s, deleted_count, error_count)"
| "delete_loop w bucket_name ((submission_id, ftype, s3_key) # files) tr s
       deleted_count error_count =
     (case delete_object w bucket_name s3_key s of
        (None, s') \<Rightarrow>
          delete_loop w bucket_name files
            (tr @ [DeleteObject bucket_name s3_key,
                   Print (''Deleted: '' @ format_value (py_str w) s3_key)])
            s' (deleted_count + 1) error_count
      | (Some e, s') \<Rightarrow>
          delete_loop w bucket_name files
            (tr @ [DeleteObject bucket_name s3_key,
                   Print (''Error deleting '' @ format_value (py_str w) s3_key @ '': '' @
                          exc_str w e)])
            s' deleted_count (error_count + 1))"

definition summary :: "nat \<Rightarrow> nat \<Rightarrow> nat \<Rightarrow> event list" where
  "summary deleted_count error_count processed =
     [Print (''\<newline>'' @ replicate 80 CHR ''=''),
      Print ''SUMMARY'',
      Print (replicate 80 CHR ''=''),
      Print (''Successfully deleted: '' @ str_nat deleted_count),
      Print (''Errors: '' @ str_nat error_count),
      Print (''Total processed: '' @ str_nat processed)]"

text \<open>\<^verbatim>\<open>main\<close> from the confirmation prompt on (lines 150 to 185).\<close>

definition confirm_and_delete ::
  "'s world \<Rightarrow> 's \<Rightarrow> event list \<Rightarrow> target list \<Rightarrow> string \<Rightarrow> string \<Rightarrow> string \<Rightarrow> string
     \<Rightarrow> string \<Rightarrow> 's run" where
  "confirm_and_delete w s tr files_to_delete bucket_name access_key secret_key endpoint region =
     (let tr1 = tr @
            [Print (''\<newline>WARNING: This will permanently delete '' @
                    str_nat (length files_to_delete) @ '' files from s3://'' @ bucket_name @
                    ''/''),
             Input ''Type 'DELETE' to confirm: '']
      in case read_input w of
           Inl e \<Rightarrow> \<lparr>trace = tr1, store = s, status = Raised e\<rparr>
         | Inr confirmation \<Rightarrow>
             if confirmation \<noteq> ''DELETE''
             then \<lparr>trace = tr1 @ [Print ''Aborted.''], store = s, status = Exited 0\<rparr>
             else
               (let tr2 = tr1 @ [Client access_key secret_key endpoint region]
                in case boto3_client w access_key secret_key endpoint region of
                     Some e \<Rightarrow> \<lparr>trace = tr2, store = s, status = Raised e\<rparr>
                   | None \<Rightarrow>
                       (case delete_loop w bucket_name files_to_delete tr2 s 0 0 of
                          (tr3, s', deleted_count, error_count) \<Rightarrow>
                            \<lparr>trace = tr3 @
                                summary deleted_count error_count (length files_to_delete),
                             store = s', status = Returned\<rparr>)))"

text \<open>\<^verbatim>\<open>main\<close> from the loading of the document to the dry-run gate (lines 123 to 148).\<close>

definition load_and_preview ::
  "'s world \<Rightarrow> 's \<Rightarrow> string \<Rightarrow> string \<Rightarrow> string \<Rightarrow> string \<Rightarrow> string \<Rightarrow> string \<Rightarrow> string
     \<Rightarrow> bool \<Rightarrow> string option \<Rightarrow> 's run" where
  "load_and_preview w s file_ids_json bucket_name prefix access_key secret_key endpoint region
       dry_run file_type =
     (let tr0 = [Print (''Loading file IDs from: '' @ file_ids_json), ReadFile file_ids_json]
      in case read_json w file_ids_json of
           Inl e \<Rightarrow> \<lparr>trace = tr0, store = s, status = Raised e\<rparr>
         | Inr file_ids \<Rightarrow>
      (case py_len file_ids of
           Inl e \<Rightarrow> \<lparr>trace = tr0, store = s, status = Raised e\<rparr>
         | Inr n \<Rightarrow>
      (let tr1 = tr0 @ [Print (''Loaded '' @ str_nat n @ '' submissions'')]
       in case collect_files_to_delete (py_str w) file_ids prefix file_type of
           Inl e \<Rightarrow> \<lparr>trace = tr1, store = s, status = Raised e\<rparr>
         | Inr files_to_delete \<Rightarrow>
      (let tr2 = tr1 @
             [Print (''Found '' @ str_nat (length files_to_delete) @ '' files to delete'')]
       in if files_to_delete = []
          then \<lparr>trace = tr2 @ [Print ''No files to delete.''], store = s, status = Returned\<rparr>
          else
            (let tr3 = tr2 @ map Print (preview (py_str w) files_to_delete)
             in if dry_run
                then \<lparr>trace = tr3 @
                         [Print ''\<newline>[DRY RUN] No files were deleted.'',
                          Print (''Would delete '' @ str_nat (length files_to_delete) @
                                 '' files from s3://'' @ bucket_name @ ''/'')],
                      store = s, status = Returned\<rparr>
                else confirm_and_delete w s tr3 files_to_delete bucket_name access_key
                       secret_key endpoint region)))))"

definition usage_text :: "string list" where
  "usage_text =
     [''Usage: python delete_by_file_ids.py <file_ids_json> <bucket_name> <prefix> <access_key> <secret_key> <endpoint> <region> [--dry-run] [--type TYPE]'',
      [],
      ''Options:'',
      ''  --dry-run          Preview deletions without actually deleting'',
      ''  --type TYPE        Only delete 'nucleotideAlignment' or 'siloReads'' @ [CHR 0x27]]"

text \<open>The test \<^verbatim>\<open>file_type and file_type not in ("nucleotideAlignment", "siloReads")\<close>.\<close>

definition rejected_type :: "string option \<Rightarrow> bool" where
  "rejected_type file_type =
     (case file_type of
        None \<Rightarrow> False
      | Some t \<Rightarrow> t \<noteq> [] \<and> t \<noteq> ''nucleotideAlignment'' \<and> t \<noteq> ''siloReads'')"

text \<open>The endpoint gets the scheme \<^verbatim>\<open>https://\<close> when it has none (lines 111 to 113).\<close>

definition normalize_endpoint :: "string \<Rightarrow> string" where
  "normalize_endpoint endpoint =
     (if \<not> startswith endpoint ''http://'' \<and> \<not> startswith endpoint ''https://''
      then ''https://'' @ endpoint else endpoint)"

text \<open>\<^verbatim>\<open>main\<close>, on \<^verbatim>\<open>sys.argv\<close> (the name of the script first), from a store \<open>s\<close>.\<close>

definition delete_by_file_ids :: "'s world \<Rightarrow> 's \<Rightarrow> string list \<Rightarrow> 's run" where
  "delete_by_file_ids w s sys_argv =
     (case parse_args (drop 1 sys_argv) of
        Inl msg \<Rightarrow> \<lparr>trace = [Print msg], store = s, status = Exited 1\<rparr>
      | Inr (positional, opts) \<Rightarrow>
          if length positional < 7
          then \<lparr>trace = map Print usage_text, store = s, status = Exited 1\<rparr>
          else
            (let file_ids_json = positional ! 0;
                 bucket_name = positional ! 1;
                 prefix = positional ! 2;
                 access_key = positional ! 3;
                 secret_key = positional ! 4;
                 endpoint = positional ! 5;
                 region = positional ! 6;
                 endpoint = normalize_endpoint endpoint;
                 dry_run = arg_dry_run opts;
                 file_type = arg_file_type opts
             in if rejected_type file_type
                then \<lparr>trace =
                        [Print (''Error: --type must be 'nucleotideAlignment' or 'siloReads', got ''
                                @ [CHR 0x27] @ the file_type @ [CHR 0x27])],
                      store = s, status = Exited 1\<rparr>
                else load_and_preview w s file_ids_json bucket_name prefix access_key
                       secret_key endpoint region dry_run file_type))"

subsection \<open>Notions used to state the Selective Deleter's properties\<close>

text \<open>The flag \<^verbatim>\<open>--dry-run\<close> is set: \<^verbatim>\<open>parse_args\<close> returns with \<^verbatim>\<open>args["dry_run"]\<close> true.\<close>

definition dry_run_set :: "string list \<Rightarrow> bool" where
  "dry_run_set sys_argv =
     (case parse_args (drop 1 sys_argv) of
        Inl msg \<Rightarrow> False
      | Inr (positional, opts) \<Rightarrow> arg_dry_run opts)"

text \<open>What the store answers to the calls of the deletion loop, one after the other:
  \<open>None\<close> for a success, the exception otherwise.\<close>

fun call_results :: "'s world \<Rightarrow> string \<Rightarrow> target list \<Rightarrow> 's \<Rightarrow> py_error option list" where
  "call_results w bucket_name [] s = []"
| "call_results w bucket_name ((submission_id, ftype, s3_key) # files) s =
     (case delete_object w bucket_name s3_key s of
        (r, s') \<Rightarrow> r # call_results w bucket_name files s')"

text \<open>
  The Fetcher's document for submissions given with their two lists of file identifier
  strings, and the target list as the specification words it: for every submission, for
  every category that the filter does not exclude, for every file identifier of the
  category, one target whose key is the prefix followed by the identifier.
\<close>

definition doc_of :: "(string \<times> string list \<times> string list) list \<Rightarrow> json" where
  "doc_of submissions =
     JObj (map (\<lambda>(submission_id, alignment, silo).
                  (submission_id,
                   JObj [(''nucleotideAlignment'', JArr (map JStr alignment)),
                         (''siloReads'', JArr (map JStr silo))]))
               submissions)"

definition spec_targets ::
  "(string \<times> string list \<times> string list) list \<Rightarrow> string \<Rightarrow> string option \<Rightarrow> target list" where
  "spec_targets submissions prefix file_type =
     concat (map (\<lambda>(submission_id, alignment, silo).
                    (if file_type = None \<or> file_type = Some ''nucleotideAlignment''
                     then map (\<lambda>file_id. (submission_id, ''nucleotideAlignment'',
                                            JStr (prefix @ file_id))) alignment
                     else []) @
                    (if file_type = None \<or> file_type = Some ''siloReads''
                     then map (\<lambda>file_id. (submission_id, ''siloReads'',
                                            JStr (prefix @ file_id))) silo
                     else []))
                 submissions)"

text \<open>Concrete inputs: the document of the specification's end-to-end example, found at
  every path, and a command line with the seven positional arguments and \<open>flags\<close>.\<close>

definition example_doc :: json where
  "example_doc = doc_of [(''S1'', [''a1''], []), (''S2'', [], [''b1'', ''b2''])]"

definition example_argv :: "string list \<Rightarrow> string list" where
  "example_argv flags =
     [''delete_by_file_ids.py'', ''ids.json'', ''bucket'', ''data/'', ''key'', ''secret'',
      ''s3.example.org'', ''eu''] @ flags"

section \<open>The Prefix Deleter: \<^verbatim>\<open>delete_s3_files.py\<close>\<close>

text \<open>The inner loop over \<^verbatim>\<open>page['Contents']\<close>. An exception of \<^verbatim>\<open>delete_object\<close> is not
  caught here: it ends the program.\<close>

fun delete_page ::
  "'s world \<Rightarrow> string \<Rightarrow> string list \<Rightarrow> event list \<Rightarrow> 's \<Rightarrow> nat
     \<Rightarrow> event list \<times> 's \<times> (py_error + nat)" where
  "delete_page w bucket_name [] tr s deleted_count = (tr, s, Inr deleted_count)"
| "delete_page w bucket_name (key # keys) tr s deleted_count =
     (let tr' = tr @ [Print (''Deleting: '' @ key), DeleteObject bucket_name (JStr key)]
      in case delete_object w bucket_name (JStr key) s of
           (Some e, s') \<Rightarrow> (tr', s', Inl e)
         | (None, s') \<Rightarrow> delete_page w bucket_name keys tr' s' (deleted_count + 1))"

text \<open>
  The loop over the pages of the paginator. The paginator asks for a page, hands it to the
  body of the loop, and asks for the next page with the token of the last one, until a
  page has none. Nothing bounds the number of pages: \<open>None\<close> is a run that never leaves the
  loop.
\<close>

partial_function (option) delete_pages ::
  "'s world \<Rightarrow> string \<Rightarrow> string \<Rightarrow> string option \<Rightarrow> event list \<Rightarrow> 's \<Rightarrow> nat
     \<Rightarrow> (event list \<times> 's \<times> (py_error + nat)) option" where
  "delete_pages w bucket_name prefix token tr s deleted_count =
     (case list_objects_v2 w bucket_name prefix token s of
        Inl e \<Rightarrow> Some (tr, s, Inl e)
      | Inr page \<Rightarrow>
          (let keys = (case contents page of None \<Rightarrow> [] | Some ks \<Rightarrow> ks)
           in case delete_page w bucket_name keys
                     (tr @ [ListObjects bucket_name prefix token keys]) s deleted_count of
                (tr', s', Inl e) \<Rightarrow> Some (tr', s', Inl e)
              | (tr', s', Inr deleted_count') \<Rightarrow>
                  (case next_token page of
                     None \<Rightarrow> Some (tr', s', Inr deleted_count')
                   | Some t \<Rightarrow>
                       delete_pages w bucket_name prefix (Some t) tr' s' deleted_count')))"

declare delete_pages.simps [code]

text \<open>The script, on \<^verbatim>\<open>sys.argv\<close>, from a store \<open>s\<close>.\<close>

definition delete_s3_files :: "'s world \<Rightarrow> 's \<Rightarrow> string list \<Rightarrow> 's run option" where
  "delete_s3_files w s sys_argv =
     (if length sys_argv < 7
      then Some \<lparr>trace =
              [Print ''Usage: python delete_s3_files.py <bucket_name> <prefix> <access_key> <secret_key> <endpoint> <region>''],
            store = s, status = Exited 1\<rparr>
      else
        (let bucket_name = sys_argv ! 1;
             prefix = sys_argv ! 2;
             access_key = sys_argv ! 3;
             secret_key = sys_argv ! 4;
             endpoint = sys_argv ! 5;
             region = sys_argv ! 6;
             tr = [Client access_key secret_key endpoint region]
         in case boto3_client w access_key secret_key endpoint region of
              Some e \<Rightarrow> Some \<lparr>trace = tr, store = s, status = Raised e\<rparr>
            | None \<Rightarrow>
                (case delete_pages w bucket_name prefix None tr s 0 of
                   None \<Rightarrow> None
                 | Some (tr', s', Inl e) \<Rightarrow> Some \<lparr>trace = tr', store = s', status = Raised e\<rparr>
                 | Some (tr', s', Inr deleted_count) \<Rightarrow>
                     Some \<lparr>trace = tr' @
                             [Print (''Deleted '' @ str_nat deleted_count @ '' objects from '' @
                                     bucket_name @ ''/'' @ prefix)],
                           store = s', status = Returned\<rparr>)))"

section \<open>A reference object store\<close>

text \<open>
  The store of one bucket as the list of its keys. A listing returns, in the order of the
  keys, at most \<open>page_size\<close> of the keys that start with the prefix and come after the
  token, and the last of them as the next token when more remain. Deleting removes the
  key and succeeds whether the key was there or not; a key that is empty or is not a
  string is refused, and no object of the store has the empty key. The store is the one
  bucket that the calls name.
\<close>

definition listed :: "string \<Rightarrow> string option \<Rightarrow> string list \<Rightarrow> string list" where
  "listed prefix token keys =
     sort (remdups (filter (\<lambda>k. startswith k prefix \<and>
                                 (case token of None \<Rightarrow> True | Some t \<Rightarrow> t < k)) keys))"

definition s3_list ::
  "nat \<Rightarrow> string \<Rightarrow> string \<Rightarrow> string option \<Rightarrow> string list \<Rightarrow> py_error + page" where
  "s3_list page_size bucket_name prefix token keys =
     (let matching = listed prefix token keys;
          first = take page_size matching
      in Inr \<lparr>contents = (if first = [] then None else Some first),
              next_token = (if page_size < length matching then Some (last first) else None)\<rparr>)"

definition s3_delete :: "string \<Rightarrow> json \<Rightarrow> string list \<Rightarrow> py_error option \<times> string list" where
  "s3_delete bucket_name key keys =
     (case key of
        JStr k \<Rightarrow>
          if k = [] then (Some (OtherError ''ParamValidationError''), keys)
          else (None, removeAll k keys)
      | _ \<Rightarrow> (Some (OtherError ''ParamValidationError''), keys))"

definition s3_world ::
  "nat \<Rightarrow> (string \<Rightarrow> py_error + json) \<Rightarrow> py_error + string \<Rightarrow> string list world" where
  "s3_world page_size files reply =
     \<lparr>read_json = files,
      read_input = reply,
      boto3_client = (\<lambda>access_key secret_key endpoint region. None),
      delete_object = s3_delete,
      list_objects_v2 = s3_list page_size,
      py_str = (\<lambda>v. ''?''),
      exc_str = (\<lambda>e. case e of OtherError m \<Rightarrow> m | _ \<Rightarrow> ''error'')\<rparr>"

text \<open>
  Concrete worlds over the reference store, with pages of one key: every path holds the
  example document; in the second world the store refuses to delete \<^verbatim>\<open>data/b1\<close>.
\<close>

definition example_world :: "py_error + string \<Rightarrow> string list world" where
  "example_world reply = s3_world 1 (\<lambda>path. Inr example_doc) reply"

definition refusing_world :: "py_error + string \<Rightarrow> string list world" where
  "refusing_world reply =
     (example_world reply)
       \<lparr>delete_object :=
          (\<lambda>bucket_name key keys.
             if key = JStr ''data/b1'' then (Some (OtherError ''AccessDenied''), keys)
             else s3_delete bucket_name key keys)\<rparr>"

subsection \<open>Notions used to state the Prefix Deleter's properties\<close>

text \<open>The keys that a run asked the store to delete, and the keys that the listings
  returned to it, both in order.\<close>

fun deleted_of :: "event \<Rightarrow> json list" where
  "deleted_of (DeleteObject b k) = [k]"
| "deleted_of e = []"

definition deleted_keys :: "event list \<Rightarrow> json list" where
  "deleted_keys tr = concat (map deleted_of tr)"

fun listed_of :: "event \<Rightarrow> string list" where
  "listed_of (ListObjects b p t ks) = ks"
| "listed_of e = []"

definition listed_keys :: "event list \<Rightarrow> string list" where
  "listed_keys tr = concat (map listed_of tr)"

text \<open>What the inner loop does for the keys of one page when no deletion fails.\<close>

definition page_events :: "string \<Rightarrow> string list \<Rightarrow> event list" where
  "page_events bucket_name keys =
     concat (map (\<lambda>key. [Print (''Deleting: '' @ key), DeleteObject bucket_name (JStr key)])
               keys)"

section \<open>Properties of the Fetcher\<close>

subsection \<open>Dictionary assignment\<close>

lemma dict_keys_update:
  "dict_keys (dict_update h k v d) =
     (if Inr h \<in> set (dict_keys d) then dict_keys d else dict_keys d @ [hash_key k])"
  by (induction d) (force simp: dict_keys_def)+

lemma set_dict_keys_update:
  "hash_key k = Inr h \<Longrightarrow> set (dict_keys (dict_update h k v d)) = insert (Inr h) (set (dict_keys d))"
  by (auto simp: dict_keys_update)

lemma distinct_dict_keys_update:
  "hash_key k = Inr h \<Longrightarrow> distinct (dict_keys d) \<Longrightarrow> distinct (dict_keys (dict_update h k v d))"
  by (auto simp: dict_keys_update)

lemma entries_for_update_same:
  "hash_key k = Inr h \<Longrightarrow> distinct (dict_keys d) \<Longrightarrow> entries_for (dict_update h k v d) k = [v]"
proof (induction d)
  case Nil
  then show ?case by (simp add: entries_for_def)
next
  case (Cons kv d)
  obtain k' v' where kv: "kv = (k', v')" by (cases kv)
  show ?case
  proof (cases "hash_key k' = Inr h")
    case True
    with Cons.prems have "\<forall>x\<in>set d. hash_key (fst x) \<noteq> Inr h"
      by (force simp: dict_keys_def kv)
    then have "filter (\<lambda>kv. hash_key (fst kv) = Inr h) d = []"
      by (simp add: filter_empty_conv)
    with True Cons.prems show ?thesis
      by (simp add: entries_for_def kv)
  next
    case False
    with Cons show ?thesis
      by (simp add: entries_for_def kv dict_keys_def)
  qed
qed

lemma entries_for_update_other:
  "hash_key k = Inr h \<Longrightarrow> hash_key k' \<noteq> hash_key k \<Longrightarrow>
   entries_for (dict_update h k v d) k' = entries_for d k'"
  by (induction d) (auto simp: entries_for_def)

subsection \<open>The extraction loop\<close>


lemma file_id_list_objects:
  "file_id_list fs = Inr ids \<Longrightarrow> f \<in> set fs \<Longrightarrow> \<exists>kvs. f = JObj kvs"
  by (induction fs arbitrary: ids) (auto simp: py_get_def split: sum.splits if_splits json.splits)

lemma file_id_list_total:
  "\<forall>f\<in>set fs. \<exists>kvs. f = JObj kvs \<Longrightarrow> \<exists>ids. file_id_list fs = Inr ids"
  by (induction fs) (auto simp: py_get_def split: sum.splits)

lemma extract_record_Some:
  assumes "extract_record decode r = Inr (Some (k, v))"
  shows "submission_id_of r = Inr k" and "truthy k"
    and "\<exists>fa fs na sr. category_ids fa = Inr na \<and> category_ids fs = Inr sr \<and>
           v = JObj [(''nucleotideAlignment'', JArr na), (''siloReads'', JArr sr)]"
  using assms
  by (auto simp: extract_record_def submission_id_of_def split: sum.splits if_splits)

lemma extract_record_None:
  assumes "extract_record decode r = Inr None"
  shows "\<exists>sid. submission_id_of r = Inr sid \<and> \<not> truthy sid"
  using assms
  by (auto simp: extract_record_def submission_id_of_def split: sum.splits if_splits)

lemma nonempty_ids_Cons_Some:
  "extract_record decode r = Inr (Some (k, v)) \<Longrightarrow> nonempty_ids (r # rs) = k # nonempty_ids rs"
  using extract_record_Some(1,2) [of decode r k v] by (simp add: nonempty_ids_def)

lemma nonempty_ids_Cons_None:
  "extract_record decode r = Inr None \<Longrightarrow> nonempty_ids (r # rs) = nonempty_ids rs"
  using extract_record_None [of decode r] by (auto simp: nonempty_ids_def)

lemma extract_loop_keys:
  "extract_loop decode records acc = Inr result \<Longrightarrow>
   set (dict_keys result) = set (dict_keys acc) \<union> set (map hash_key (nonempty_ids records))"
proof (induction records arbitrary: acc)
  case Nil
  then show ?case by (simp add: nonempty_ids_def)
next
  case (Cons r rs)
  show ?case
  proof (cases "extract_record decode r")
    case (Inl e)
    with Cons.prems show ?thesis by simp
  next
    case (Inr opt)
    show ?thesis
    proof (cases opt)
      case None
      with Inr Cons show ?thesis by (simp add: nonempty_ids_Cons_None)
    next
      case (Some kv)
      obtain k v where kv: "kv = (k, v)" by (cases kv)
      from Cons.prems Inr Some kv obtain h acc'
        where h: "hash_key k = Inr h" and acc': "acc' = dict_update h k v acc"
          and loop: "extract_loop decode rs acc' = Inr result"
        by (auto simp: dict_setitem_def split: sum.splits)
      from Cons.IH [OF loop] h acc' Inr Some kv show ?thesis
        by (simp add: nonempty_ids_Cons_Some set_dict_keys_update)
    qed
  qed
qed

lemma extract_loop_distinct:
  "extract_loop decode records acc = Inr result \<Longrightarrow> distinct (dict_keys acc) \<Longrightarrow>
   distinct (dict_keys result)"
proof (induction records arbitrary: acc)
  case Nil
  then show ?case by simp
next
  case (Cons r rs)
  then show ?case
    by (auto simp: dict_setitem_def distinct_dict_keys_update split: sum.splits option.splits)
qed

lemma extract_loop_append:
  "extract_loop decode (xs @ ys) acc = Inr result \<Longrightarrow>
   \<exists>mid. extract_loop decode xs acc = Inr mid \<and> extract_loop decode ys mid = Inr result"
proof (induction xs arbitrary: acc)
  case Nil
  then show ?case by simp
next
  case (Cons r rs)
  then show ?case
    by (auto split: sum.splits option.splits)
qed

lemma extract_loop_untouched:
  "extract_loop decode records acc = Inr result \<Longrightarrow>
   \<forall>r\<in>set records. \<forall>k' v'. extract_record decode r = Inr (Some (k', v')) \<longrightarrow>
        hash_key k' \<noteq> hash_key k \<Longrightarrow>
   entries_for result k = entries_for acc k"
proof (induction records arbitrary: acc)
  case Nil
  then show ?case by simp
next
  case (Cons r rs)
  show ?case
  proof (cases "extract_record decode r")
    case (Inl e)
    with Cons.prems show ?thesis by simp
  next
    case (Inr opt)
    show ?thesis
    proof (cases opt)
      case None
      with Inr Cons show ?thesis by simp
    next
      case (Some kv)
      obtain k' v' where kv: "kv = (k', v')" by (cases kv)
      from Cons.prems(1) Inr Some kv obtain h acc'
        where h: "hash_key k' = Inr h" and acc': "acc' = dict_update h k' v' acc"
          and loop: "extract_loop decode rs acc' = Inr result"
        by (auto simp: dict_setitem_def split: sum.splits)
      have ne: "hash_key k' \<noteq> hash_key k"
        using Cons.prems(2) Inr Some kv by simp
      have "entries_for result k = entries_for acc' k"
        using Cons.IH [OF loop] Cons.prems(2) by simp
      also have "\<dots> = entries_for acc k"
        using h ne acc' by (metis entries_for_update_other)
      finally show ?thesis .
    qed
  qed
qed

lemma parse_file_field_falls_back:
  "falls_back decode v \<Longrightarrow> parse_file_field decode v = Inr (JArr [])"
  by (cases v) (auto simp: falls_back_def parse_file_field_def json_loads_def)

lemma category_ids_Nil: "category_ids (JArr []) = Inr []"
  by (simp add: category_ids_def py_iter_def)




lemmas fetch_eval = extract_file_ids_def extract_record_def example_record_def
  example_decode_def py_get_def parse_file_field_def json_loads_def category_ids_def
  py_iter_def dict_setitem_def file_id_of_def


subsection \<open>The claims about the Fetcher\<close>

text \<open>
  C9. When several input lines carry the same non-empty submission identifier, the output
  mapping has exactly one entry for it, and its category lists are those of the last such
  line: if \<open>r\<close> is a line that yields the entry \<open>(k, v)\<close> and no later line yields a key
  equal to \<open>k\<close>, then the values stored under \<open>k\<close> in the output are \<open>[v]\<close>.
\<close>

theorem fetcher_last_record_wins:
  assumes "extract_file_ids decode records = Inr result"
    and "records = before @ r # after"
    and "extract_record decode r = Inr (Some (k, v))"
    and "\<forall>r'\<in>set after. \<forall>k' v'. extract_record decode r' = Inr (Some (k', v')) \<longrightarrow>
           hash_key k' \<noteq> hash_key k"
  shows "entries_for result k = [v]"
proof -
  from assms(1,2) obtain mid
    where mid: "extract_loop decode before [] = Inr mid"
      and rest: "extract_loop decode (r # after) mid = Inr result"
    using extract_loop_append [of decode before "r # after" "[]" result]
    by (auto simp: extract_file_ids_def)
  from rest assms(3) obtain h
    where h: "hash_key k = Inr h"
      and loop: "extract_loop decode after (dict_update h k v mid) = Inr result"
    by (auto simp: dict_setitem_def split: sum.splits)
  have "distinct (dict_keys mid)"
    using extract_loop_distinct [OF mid] by (simp add: dict_keys_def)
  then have "entries_for (dict_update h k v mid) k = [v]"
    using h by (rule entries_for_update_same [rotated])
  with extract_loop_untouched [OF loop assms(4)] show ?thesis by simp
qed

theorem fetcher_last_record_wins_witness:
  \<open>extract_file_ids example_decode
      [example_record ''S1'' ''[{"fileId": "a1"}, {"fileId": null}, {"fileId": "a2"}]'',
       example_record ''S2'' ''oops'',
       example_record ''S1'' ''[]'',
       example_record ''S2'' ''[{"fileId": "a1"}, {"fileId": null}, {"fileId": "a2"}]'']
     = Inr [(JStr ''S1'', JObj [(''nucleotideAlignment'', JArr []), (''siloReads'', JArr [])]),
            (JStr ''S2'', JObj [(''nucleotideAlignment'', JArr [JStr ''a1'', JStr ''a2'']),
                                (''siloReads'', JArr [])])] \<and>
   entries_for
      [(JStr ''S1'', JObj [(''nucleotideAlignment'', JArr []), (''siloReads'', JArr [])]),
       (JStr ''S2'', JObj [(''nucleotideAlignment'', JArr [JStr ''a1'', JStr ''a2'']),
                           (''siloReads'', JArr [])])] (JStr ''S1'')
     = [JObj [(''nucleotideAlignment'', JArr []), (''siloReads'', JArr [])]]\<close>
  using fetcher_last_record_wins [of example_decode
      \<open>[example_record ''S1'' ''[{"fileId": "a1"}, {"fileId": null}, {"fileId": "a2"}]'',
       example_record ''S2'' ''oops'',
       example_record ''S1'' ''[]'',
       example_record ''S2'' ''[{"fileId": "a1"}, {"fileId": null}, {"fileId": "a2"}]'']\<close>
      "[(JStr ''S1'', JObj [(''nucleotideAlignment'', JArr []), (''siloReads'', JArr [])]),
            (JStr ''S2'', JObj [(''nucleotideAlignment'', JArr [JStr ''a1'', JStr ''a2'']),
                                (''siloReads'', JArr [])])]"
      \<open>[example_record ''S1'' ''[{"fileId": "a1"}, {"fileId": null}, {"fileId": "a2"}]'',
       example_record ''S2'' ''oops'']\<close>
      "example_record ''S1'' ''[]''"
      \<open>[example_record ''S2'' ''[{"fileId": "a1"}, {"fileId": null}, {"fileId": "a2"}]'']\<close>
      "JStr ''S1''"
      "JObj [(''nucleotideAlignment'', JArr []), (''siloReads'', JArr [])]"]
  by (simp add: fetch_eval entries_for_def)

lemma extract_loop_filter:
  "extract_loop decode records acc = Inr result \<Longrightarrow>
   extract_loop decode (filter has_submission_id records) acc = Inr result"
proof (induction records arbitrary: acc)
  case Nil
  then show ?case by simp
next
  case (Cons r rs)
  show ?case
  proof (cases "extract_record decode r")
    case (Inl e)
    with Cons.prems show ?thesis by simp
  next
    case (Inr opt)
    show ?thesis
    proof (cases opt)
      case None
      with Inr have "\<not> has_submission_id r"
        using extract_record_None [of decode r] by (auto simp: has_submission_id_def)
      with None Inr Cons show ?thesis by simp
    next
      case (Some kv)
      obtain k v where kv: "kv = (k, v)" by (cases kv)
      with Inr Some have "has_submission_id r"
        using extract_record_Some(1,2) [of decode r k v] by (simp add: has_submission_id_def)
      with Some Inr Cons kv show ?thesis
        by (auto split: sum.splits)
    qed
  qed
qed

text \<open>
  C4, as stated, fails: two lines with the submission identifier \<^verbatim>\<open>S1\<close> give one key,
  while two lines carry a non-empty identifier.
\<close>

theorem fetcher_key_count_counterexample:
  "extract_file_ids example_decode [example_record ''S1'' ''oops'', example_record ''S1'' ''oops'']
     = Inr [(JStr ''S1'', JObj [(''nucleotideAlignment'', JArr []), (''siloReads'', JArr [])])] \<and>
   length [(JStr ''S1'', JObj [(''nucleotideAlignment'', JArr []), (''siloReads'', JArr [])])]
     \<noteq> length (filter has_submission_id
                [example_record ''S1'' ''oops'', example_record ''S1'' ''oops''])"
  by (simp add: fetch_eval has_submission_id_def submission_id_of_def)

text \<open>
  C4, amended. Whenever the extraction returns, the lines that lack a non-empty submission
  identifier are excluded (the output is that of the other lines alone), the keys of the
  output are the non-empty submission identifiers of the lines, and their number is the
  number of distinct such identifiers.
\<close>

theorem fetcher_key_count:
  assumes "extract_file_ids decode records = Inr result"
  shows "extract_file_ids decode (filter has_submission_id records) = Inr result \<and>
         set (dict_keys result) = hash_key ` set (nonempty_ids records) \<and>
         length result = card (hash_key ` set (nonempty_ids records))"
proof -
  from assms have loop: "extract_loop decode records [] = Inr result"
    by (simp add: extract_file_ids_def)
  have keys: "set (dict_keys result) = hash_key ` set (nonempty_ids records)"
    using extract_loop_keys [OF loop] by (simp add: dict_keys_def)
  have "distinct (dict_keys result)"
    using extract_loop_distinct [OF loop] by (simp add: dict_keys_def)
  then have "card (set (dict_keys result)) = length (dict_keys result)"
    by (rule distinct_card)
  with keys have "length result = card (hash_key ` set (nonempty_ids records))"
    by (simp add: dict_keys_def)
  with keys extract_loop_filter [OF loop] show ?thesis
    by (simp add: extract_file_ids_def)
qed

theorem fetcher_key_count_witness:
  "extract_file_ids example_decode
      [example_record ''S1'' ''oops'', JObj [], example_record [] ''oops'',
       example_record ''S2'' ''oops'', example_record ''S1'' ''oops'']
     = Inr [(JStr ''S1'', JObj [(''nucleotideAlignment'', JArr []), (''siloReads'', JArr [])]),
            (JStr ''S2'', JObj [(''nucleotideAlignment'', JArr []), (''siloReads'', JArr [])])] \<and>
   nonempty_ids [example_record ''S1'' ''oops'', JObj [], example_record [] ''oops'',
       example_record ''S2'' ''oops'', example_record ''S1'' ''oops'']
     = [JStr ''S1'', JStr ''S2'', JStr ''S1''] \<and>
   card (hash_key ` set (nonempty_ids [example_record ''S1'' ''oops'', JObj [],
       example_record [] ''oops'', example_record ''S2'' ''oops'', example_record ''S1'' ''oops'']))
     = 2"
  using fetcher_key_count [of example_decode
      "[example_record ''S1'' ''oops'', JObj [], example_record [] ''oops'',
       example_record ''S2'' ''oops'', example_record ''S1'' ''oops'']"
      "[(JStr ''S1'', JObj [(''nucleotideAlignment'', JArr []), (''siloReads'', JArr [])]),
            (JStr ''S2'', JObj [(''nucleotideAlignment'', JArr []), (''siloReads'', JArr [])])]"]
  by (simp add: fetch_eval nonempty_ids_def submission_id_of_def)

text \<open>
  What the fail-soft parsing does cover. A field value on which \<^verbatim>\<open>parse_file_field\<close> falls
  back is parsed to the empty list, without an error. A record with a non-empty submission
  identifier in which both fields are such yields the entry with two empty lists; and in
  every entry that a record yields, the list of a category whose field is such is \<^verbatim>\<open>[]\<close>.
\<close>

lemma fallback_field_yields_empty:
  "(falls_back decode v \<longrightarrow>
      parse_file_field decode v = Inr (JArr []) \<and> category_ids (JArr []) = Inr []) \<and>
   (submission_id_of record = Inr sid \<and> truthy sid \<and>
    falls_back decode (field_of record ''nucleotideAlignment'') \<and>
    falls_back decode (field_of record ''siloReads'') \<longrightarrow>
      extract_record decode record =
        Inr (Some (sid, JObj [(''nucleotideAlignment'', JArr []), (''siloReads'', JArr [])]))) \<and>
   (extract_record decode record = Inr (Some (k, entry)) \<and>
    (c = ''nucleotideAlignment'' \<or> c = ''siloReads'') \<and>
    falls_back decode (field_of record c) \<longrightarrow>
      py_get entry c JNull = Inr (JArr []))"
proof (intro conjI impI)
  assume "falls_back decode v"
  then show "parse_file_field decode v = Inr (JArr [])"
    by (rule parse_file_field_falls_back)
next
  show "category_ids (JArr []) = Inr []"
    by (rule category_ids_Nil)
next
  assume a: "submission_id_of record = Inr sid \<and> truthy sid \<and>
    falls_back decode (field_of record ''nucleotideAlignment'') \<and>
    falls_back decode (field_of record ''siloReads'')"
  then obtain metadata where m: "py_get record ''metadata'' (JObj []) = Inr metadata"
    and s: "py_get metadata ''submissionId'' JNull = Inr sid"
    by (auto simp: submission_id_of_def split: sum.splits)
  from s obtain kvs where kvs: "metadata = JObj kvs"
    by (auto simp: py_get_def split: json.splits)
  from a m kvs have
    "parse_file_field decode (case map_of kvs ''nucleotideAlignment'' of Some v \<Rightarrow> v | None \<Rightarrow> JNull)
       = Inr (JArr [])"
    "parse_file_field decode (case map_of kvs ''siloReads'' of Some v \<Rightarrow> v | None \<Rightarrow> JNull)
       = Inr (JArr [])"
    by (auto simp: field_of_def py_get_def intro!: parse_file_field_falls_back)
  with a m s kvs show "extract_record decode record =
        Inr (Some (sid, JObj [(''nucleotideAlignment'', JArr []), (''siloReads'', JArr [])]))"
    by (simp add: extract_record_def category_ids_Nil py_get_def)
next
  assume a: "extract_record decode record = Inr (Some (k, entry)) \<and>
    (c = ''nucleotideAlignment'' \<or> c = ''siloReads'') \<and>
    falls_back decode (field_of record c)"
  then obtain metadata where m: "py_get record ''metadata'' (JObj []) = Inr metadata"
    by (auto simp: extract_record_def split: sum.splits)
  from a m obtain kvs where kvs: "metadata = JObj kvs"
    by (auto simp: extract_record_def py_get_def split: sum.splits json.splits if_splits)
  from a m kvs have
    "parse_file_field decode (case map_of kvs c of Some v \<Rightarrow> v | None \<Rightarrow> JNull) = Inr (JArr [])"
    by (auto simp: field_of_def py_get_def intro!: parse_file_field_falls_back)
  with a m kvs show "py_get entry c JNull = Inr (JArr [])"
    by (auto simp: extract_record_def py_get_def category_ids_Nil split: sum.splits if_splits)
qed

lemma fallback_field_example:
  "falls_back example_decode (JStr ''oops'') \<and>
   extract_record example_decode (example_record ''S1'' ''oops'') =
     Inr (Some (JStr ''S1'',
                JObj [(''nucleotideAlignment'', JArr []), (''siloReads'', JArr [])]))"
  by (simp add: fetch_eval falls_back_def)

text \<open>
  C5 fails on the code at a record whose field is the string \<^verbatim>\<open>"[1]"\<close>: the string is JSON, so
  \<^verbatim>\<open>parse_file_field\<close>, declared to return a list of dictionaries and falling back to \<^verbatim>\<open>[]\<close>
  on what it cannot parse, returns \<^verbatim>\<open>[1]\<close> unchecked, and the comprehension raises
  \<^verbatim>\<open>AttributeError\<close> on its element. The error is not caught: the whole extraction is lost,
  also the records before and after. The strings \<^verbatim>\<open>"null"\<close> and \<^verbatim>\<open>"5"\<close> end in \<^verbatim>\<open>TypeError\<close>
  in the same way. The same malformed data as a list, not as a string, does yield \<^verbatim>\<open>[]\<close>.
\<close>

theorem fetcher_parsed_field_unchecked:
  \<open>parse_file_field example_decode (JStr ''[1]'') = Inr (JArr [JInt 1]) \<and>
   extract_file_ids example_decode [example_record ''S1'' ''[1]''] = Inl AttributeError \<and>
   extract_file_ids example_decode [example_record ''S1'' ''null''] = Inl TypeError \<and>
   extract_file_ids example_decode [example_record ''S1'' ''5''] = Inl TypeError \<and>
   extract_file_ids example_decode
      [example_record ''S1'' ''[{"fileId": "a1"}, {"fileId": null}, {"fileId": "a2"}]'',
       example_record ''S2'' ''[1]'',
       example_record ''S3'' ''[]''] = Inl AttributeError \<and>
   extract_file_ids example_decode
      [JObj [(''metadata'',
              JObj [(''submissionId'', JStr ''S1''), (''nucleotideAlignment'', JArr [JInt 1])])]]
     = Inr [(JStr ''S1'', JObj [(''nucleotideAlignment'', JArr []), (''siloReads'', JArr [])])]\<close>
  by (simp add: fetch_eval)

section \<open>Properties of the Selective Deleter\<close>

lemma filter_map_Print [simp]:
  "filter is_delete (map Print xs) = []" "filter is_input (map Print xs) = []"
  "filter is_client (map Print xs) = []"
  by (induction xs) auto

lemma delete_loop_acc:
  "delete_loop w b files tr s dc ec =
     (case delete_loop w b files [] s 0 0 of (tr', s', d, e) \<Rightarrow> (tr @ tr', s', dc + d, ec + e))"
proof (induction files arbitrary: tr s dc ec)
  case Nil
  then show ?case by simp
next
  case (Cons t files)
  obtain sid ft key where t: "t = (sid, ft, key)" by (cases t)
  obtain r s' where r: "delete_object w b key s = (r, s')" by (cases "delete_object w b key s")
  show ?case
  proof (cases r)
    case None
    show ?thesis
      unfolding t
      apply (simp add: r None)
      apply (subst Cons.IH)
      apply (subst (2) Cons.IH)
      apply (simp split: prod.splits)
      done
  next
    case (Some e)
    show ?thesis
      unfolding t
      apply (simp add: r Some)
      apply (subst Cons.IH)
      apply (subst (2) Cons.IH)
      apply (simp split: prod.splits)
      done
  qed
qed

lemma delete_loop_props:
  "delete_loop w b files [] s 0 0 = (tr, s', d, e) \<Longrightarrow>
   filter is_delete tr = map (\<lambda>(sid, ft, key). DeleteObject b key) files \<and>
   filter is_input tr = [] \<and> filter is_client tr = [] \<and>
   d = length (filter (\<lambda>r. r = None) (call_results w b files s)) \<and>
   e = length (filter (\<lambda>r. r \<noteq> None) (call_results w b files s)) \<and>
   d + e = length files"
proof (induction files arbitrary: tr s s' d e)
  case Nil
  then show ?case by simp
next
  case (Cons t files)
  obtain sid ft key where t: "t = (sid, ft, key)" by (cases t)
  obtain r s1 where r: "delete_object w b key s = (r, s1)" by (cases "delete_object w b key s")
  obtain tr1 s2 d1 e1 where rest: "delete_loop w b files [] s1 0 0 = (tr1, s2, d1, e1)"
    by (cases "delete_loop w b files [] s1 0 0") auto
  note IH = Cons.IH [OF rest]
  show ?case
  proof (cases r)
    case None
    with Cons.prems t r rest IH show ?thesis
      by (auto simp: delete_loop_acc [of w b files "_ # _"])
  next
    case (Some err)
    with Cons.prems t r rest IH show ?thesis
      by (auto simp: delete_loop_acc [of w b files "_ # _"])
  qed
qed

lemma collect_JObj:
  "collect_files_to_delete str file_ids prefix ft = Inr files \<Longrightarrow>
   \<exists>items. file_ids = JObj items \<and> py_len file_ids = Inr (length items)"
  by (cases file_ids) (auto simp: collect_files_to_delete_def py_len_def)

lemma main_valid_args:
  assumes "parse_args (drop 1 sys_argv) = Inr (positional, opts)"
    and "7 \<le> length positional"
    and "\<not> rejected_type (arg_file_type opts)"
  shows "delete_by_file_ids w s sys_argv =
     load_and_preview w s (positional ! 0) (positional ! 1) (positional ! 2) (positional ! 3)
       (positional ! 4) (normalize_endpoint (positional ! 5)) (positional ! 6)
       (arg_dry_run opts) (arg_file_type opts)"
  using assms by (simp add: delete_by_file_ids_def Let_def)

lemma load_and_preview_targets:
  assumes "read_json w path = Inr file_ids"
    and "collect_files_to_delete (py_str w) file_ids prefix ft = Inr files"
    and "files \<noteq> []"
  shows "\<exists>tr. filter is_delete tr = [] \<and> filter is_input tr = [] \<and> filter is_client tr = [] \<and>
     Print (''Found '' @ str_nat (length files) @ '' files to delete'') \<in> set tr \<and>
     load_and_preview w s path bucket prefix access secret endpoint region dry ft =
       (if dry
        then \<lparr>trace = tr @ [Print ''\<newline>[DRY RUN] No files were deleted.'',
                            Print (''Would delete '' @ str_nat (length files) @
                                   '' files from s3://'' @ bucket @ ''/'')],
              store = s, status = Returned\<rparr>
        else confirm_and_delete w s tr files bucket access secret endpoint region)"
proof -
  from collect_JObj [OF assms(2)] obtain items
    where items: "file_ids = JObj items" "py_len file_ids = Inr (length items)" by blast
  define tr where "tr =
     [Print (''Loading file IDs from: '' @ path), ReadFile path,
      Print (''Loaded '' @ str_nat (length items) @ '' submissions''),
      Print (''Found '' @ str_nat (length files) @ '' files to delete'')] @
     map Print (preview (py_str w) files)"
  have "filter is_delete tr = []" "filter is_input tr = []" "filter is_client tr = []"
    "Print (''Found '' @ str_nat (length files) @ '' files to delete'') \<in> set tr"
    by (simp_all add: tr_def)
  moreover have "load_and_preview w s path bucket prefix access secret endpoint region dry ft =
       (if dry
        then \<lparr>trace = tr @ [Print ''\<newline>[DRY RUN] No files were deleted.'',
                            Print (''Would delete '' @ str_nat (length files) @
                                   '' files from s3://'' @ bucket @ ''/'')],
              store = s, status = Returned\<rparr>
        else confirm_and_delete w s tr files bucket access secret endpoint region)"
    using assms items by (simp add: load_and_preview_def Let_def tr_def)
  ultimately show ?thesis by blast
qed

lemma confirm_declined:
  assumes "read_input w = Inr confirmation" and "confirmation \<noteq> ''DELETE''"
  shows "confirm_and_delete w s tr files bucket access secret endpoint region =
     \<lparr>trace = tr @ [Print (''\<newline>WARNING: This will permanently delete '' @
                    str_nat (length files) @ '' files from s3://'' @ bucket @ ''/''),
                    Input ''Type 'DELETE' to confirm: '', Print ''Aborted.''],
      store = s, status = Exited 0\<rparr>"
  using assms by (simp add: confirm_and_delete_def Let_def)

lemma confirm_not_given:
  assumes "read_input w \<noteq> Inr ''DELETE''"
  shows "filter is_delete (trace (confirm_and_delete w s tr files bucket access secret endpoint region))
           = filter is_delete tr \<and>
         filter is_client (trace (confirm_and_delete w s tr files bucket access secret endpoint region))
           = filter is_client tr \<and>
         store (confirm_and_delete w s tr files bucket access secret endpoint region) = s"
  using assms by (auto simp: confirm_and_delete_def Let_def split: sum.splits)

lemma load_and_preview_not_confirmed:
  assumes "dry \<or> read_input w \<noteq> Inr ''DELETE''"
  shows "filter is_delete (trace (load_and_preview w s path bucket prefix access secret endpoint region dry ft)) = [] \<and>
         filter is_client (trace (load_and_preview w s path bucket prefix access secret endpoint region dry ft)) = [] \<and>
         store (load_and_preview w s path bucket prefix access secret endpoint region dry ft) = s"
  using assms
  by (auto simp: load_and_preview_def Let_def confirm_not_given split: sum.splits)

lemma load_and_preview_dry:
  "filter is_input (trace (load_and_preview w s path bucket prefix access secret endpoint region True ft)) = []"
  by (auto simp: load_and_preview_def Let_def split: sum.splits)

lemma main_not_confirmed:
  assumes "dry_run_set sys_argv \<or> read_input w \<noteq> Inr ''DELETE''"
  shows "filter is_delete (trace (delete_by_file_ids w s sys_argv)) = [] \<and>
         filter is_client (trace (delete_by_file_ids w s sys_argv)) = [] \<and>
         store (delete_by_file_ids w s sys_argv) = s"
  using assms
  by (auto simp: delete_by_file_ids_def dry_run_set_def Let_def load_and_preview_not_confirmed
      split: sum.splits)

lemma main_dry_no_input:
  assumes "dry_run_set sys_argv"
  shows "filter is_input (trace (delete_by_file_ids w s sys_argv)) = []"
  using assms
  by (auto simp: delete_by_file_ids_def dry_run_set_def Let_def load_and_preview_dry
      split: sum.splits)

lemma s3_key_of_string: "s3_key_of str prefix (JStr file_id) = JStr (prefix @ file_id)"
  by (simp add: s3_key_of_def format_value_def)

lemma category_targets_doc:
  "category_targets str prefix sid
      (JObj [(''nucleotideAlignment'', JArr (map JStr alignment)),
             (''siloReads'', JArr (map JStr silo))]) ''nucleotideAlignment''
     = Inr (map (\<lambda>file_id. (sid, ''nucleotideAlignment'', JStr (prefix @ file_id))) alignment)"
  "category_targets str prefix sid
      (JObj [(''nucleotideAlignment'', JArr (map JStr alignment)),
             (''siloReads'', JArr (map JStr silo))]) ''siloReads''
     = Inr (map (\<lambda>file_id. (sid, ''siloReads'', JStr (prefix @ file_id))) silo)"
  by (simp_all add: category_targets_def py_get_def py_iter_def s3_key_of_string comp_def)

lemma collect_loop_doc:
  "collect_loop str prefix file_type
      (map (\<lambda>(submission_id, alignment, silo).
                  (submission_id,
                   JObj [(''nucleotideAlignment'', JArr (map JStr alignment)),
                         (''siloReads'', JArr (map JStr silo))])) submissions) acc
     = Inr (acc @ spec_targets submissions prefix file_type)"
proof (induction submissions arbitrary: acc)
  case Nil
  then show ?case by (simp add: spec_targets_def)
next
  case (Cons x xs)
  obtain sid alignment silo where x: "x = (sid, alignment, silo)" by (cases x)
  have step: "spec_targets (x # xs) prefix file_type =
      (if file_type = None \<or> file_type = Some ''nucleotideAlignment''
       then map (\<lambda>file_id. (sid, ''nucleotideAlignment'', JStr (prefix @ file_id))) alignment
       else []) @
      (if file_type = None \<or> file_type = Some ''siloReads''
       then map (\<lambda>file_id. (sid, ''siloReads'', JStr (prefix @ file_id))) silo
       else []) @ spec_targets xs prefix file_type"
    by (simp add: spec_targets_def x)
  show ?case
    unfolding step using Cons.IH by (auto simp add: x category_targets_doc)
qed

lemma collect_doc_of:
  "collect_files_to_delete str (doc_of submissions) prefix file_type =
     Inr (spec_targets submissions prefix file_type)"
  by (simp add: collect_files_to_delete_def doc_of_def collect_loop_doc)

text \<open>
  C3. For every prefix, the empty one included, and every file identifier (a string), the
  key of the target that the Selective Deleter emits is the prefix followed by the
  identifier, nothing added: on the document of any submissions the collected targets are
  those of the specification, and the key built for one identifier is the concatenation.
\<close>

theorem target_key_is_prefix_then_id:
  "collect_files_to_delete str (doc_of submissions) prefix file_type =
     Inr (spec_targets submissions prefix file_type) \<and>
   s3_key_of str prefix (JStr file_id) = JStr (prefix @ file_id)"
  by (simp add: collect_doc_of s3_key_of_string)

lemma example_targets:
  "collect_files_to_delete str example_doc ''data/'' None =
     Inr [(''S1'', ''nucleotideAlignment'', JStr ''data/a1''),
          (''S2'', ''siloReads'', JStr ''data/b1''),
          (''S2'', ''siloReads'', JStr ''data/b2'')]"
  unfolding example_doc_def collect_doc_of by (simp add: spec_targets_def)

text \<open>
  C1. In the Selective Deleter, when dry-run is not set and the target list is not empty,
  a confirmation other than exactly \<^verbatim>\<open>DELETE\<close> ends the program with exit code 0, after
  \<^verbatim>\<open>Aborted.\<close>, with no call of \<^verbatim>\<open>delete_object\<close>, no client and the store as it was.
\<close>

theorem declined_confirmation_deletes_nothing:
  assumes "parse_args (drop 1 sys_argv) = Inr (positional, opts)"
    and "7 \<le> length positional"
    and "\<not> rejected_type (arg_file_type opts)"
    and "\<not> arg_dry_run opts"
    and "read_json w (positional ! 0) = Inr file_ids"
    and "collect_files_to_delete (py_str w) file_ids (positional ! 2) (arg_file_type opts)
           = Inr files"
    and "files \<noteq> []"
    and "read_input w = Inr confirmation"
    and "confirmation \<noteq> ''DELETE''"
  shows "status (delete_by_file_ids w s sys_argv) = Exited 0 \<and>
         exit_code (status (delete_by_file_ids w s sys_argv)) = 0 \<and>
         filter is_delete (trace (delete_by_file_ids w s sys_argv)) = [] \<and>
         filter is_client (trace (delete_by_file_ids w s sys_argv)) = [] \<and>
         store (delete_by_file_ids w s sys_argv) = s \<and>
         last (trace (delete_by_file_ids w s sys_argv)) = Print ''Aborted.''"
proof -
  from load_and_preview_targets [OF assms(5,6,7)] obtain tr
    where tr: "filter is_delete tr = []" "filter is_client tr = []"
      and run: "load_and_preview w s (positional ! 0) (positional ! 1) (positional ! 2)
          (positional ! 3) (positional ! 4) (normalize_endpoint (positional ! 5))
          (positional ! 6) (arg_dry_run opts) (arg_file_type opts) =
        (if arg_dry_run opts
         then \<lparr>trace = tr @ [Print ''\<newline>[DRY RUN] No files were deleted.'',
                            Print (''Would delete '' @ str_nat (length files) @
                                   '' files from s3://'' @ positional ! 1 @ ''/'')],
               store = s, status = Returned\<rparr>
         else confirm_and_delete w s tr files (positional ! 1) (positional ! 3)
                (positional ! 4) (normalize_endpoint (positional ! 5)) (positional ! 6))"
    by blast
  show ?thesis
    unfolding main_valid_args [OF assms(1,2,3)] run
    using tr assms(4) by (simp add: confirm_declined [OF assms(8,9)])
qed

lemmas delete_eval = example_world_def refusing_world_def s3_world_def s3_delete_def
  example_argv_def parse_args_def rejected_type_def normalize_endpoint_def startswith_def
  example_doc_def doc_of_def collect_files_to_delete_def category_targets_def py_get_def
  py_iter_def py_len_def s3_key_of_def format_value_def

theorem declined_confirmation_deletes_nothing_witness:
  "parse_args (drop 1 (example_argv [])) =
     Inr ([''ids.json'', ''bucket'', ''data/'', ''key'', ''secret'', ''s3.example.org'', ''eu''],
          \<lparr>arg_dry_run = False, arg_file_type = None\<rparr>) \<and>
   read_json (example_world (Inr ''delete'')) ''ids.json'' = Inr example_doc \<and>
   collect_files_to_delete (py_str (example_world (Inr ''delete''))) example_doc ''data/'' None =
     Inr [(''S1'', ''nucleotideAlignment'', JStr ''data/a1''),
          (''S2'', ''siloReads'', JStr ''data/b1''),
          (''S2'', ''siloReads'', JStr ''data/b2'')] \<and>
   read_input (example_world (Inr ''delete'')) = Inr ''delete'' \<and>
   status (delete_by_file_ids (example_world (Inr ''delete'')) [''data/a1'', ''data/b1'']
             (example_argv [])) = Exited 0 \<and>
   filter is_delete (trace (delete_by_file_ids (example_world (Inr ''delete''))
             [''data/a1'', ''data/b1''] (example_argv []))) = [] \<and>
   store (delete_by_file_ids (example_world (Inr ''delete'')) [''data/a1'', ''data/b1'']
             (example_argv [])) = [''data/a1'', ''data/b1'']"
  using declined_confirmation_deletes_nothing [of "example_argv []"
      "[''ids.json'', ''bucket'', ''data/'', ''key'', ''secret'', ''s3.example.org'', ''eu'']"
      "\<lparr>arg_dry_run = False, arg_file_type = None\<rparr>"
      "example_world (Inr ''delete'')" example_doc
      "[(''S1'', ''nucleotideAlignment'', JStr ''data/a1''),
          (''S2'', ''siloReads'', JStr ''data/b1''),
          (''S2'', ''siloReads'', JStr ''data/b2'')]" "''delete''" "[''data/a1'', ''data/b1'']"]
  by (simp add: example_targets)
     (simp add: example_world_def s3_world_def example_argv_def parse_args_def rejected_type_def)

lemma confirm_given:
  assumes "read_input w = Inr ''DELETE''"
    and "boto3_client w access secret endpoint region = None"
    and "delete_loop w bucket files [] s 0 0 = (tr', s', d, e)"
  shows "confirm_and_delete w s tr files bucket access secret endpoint region =
     \<lparr>trace = tr @ [Print (''\<newline>WARNING: This will permanently delete '' @
                    str_nat (length files) @ '' files from s3://'' @ bucket @ ''/''),
                    Input ''Type 'DELETE' to confirm: '',
                    Client access secret endpoint region] @ tr' @
                summary d e (length files),
      store = s', status = Returned\<rparr>"
  using assms
  by (simp add: confirm_and_delete_def Let_def delete_loop_acc [of w bucket files "_ @ _"])

text \<open>
  C7. In the confirmed deletion loop of the Selective Deleter, whatever the store answers,
  every target is attempted exactly once, in order: an error on one object is caught and
  counted and the loop goes on. The run returns after the summary, whose lines print as
  success count the number of calls that succeeded, as error count the number of calls
  that raised, and as total the number of targets; the two counts add up to the total.
\<close>

theorem deletion_loop_attempts_every_target:
  assumes "parse_args (drop 1 sys_argv) = Inr (positional, opts)"
    and "7 \<le> length positional"
    and "\<not> rejected_type (arg_file_type opts)"
    and "\<not> arg_dry_run opts"
    and "read_json w (positional ! 0) = Inr file_ids"
    and "collect_files_to_delete (py_str w) file_ids (positional ! 2) (arg_file_type opts)
           = Inr files"
    and "files \<noteq> []"
    and "read_input w = Inr ''DELETE''"
    and "boto3_client w (positional ! 3) (positional ! 4) (normalize_endpoint (positional ! 5))
           (positional ! 6) = None"
    and "results = call_results w (positional ! 1) files s"
    and "deleted_count = length (filter (\<lambda>r. r = None) results)"
    and "error_count = length (filter (\<lambda>r. r \<noteq> None) results)"
  shows "status (delete_by_file_ids w s sys_argv) = Returned \<and>
         filter is_delete (trace (delete_by_file_ids w s sys_argv)) =
           map (\<lambda>(submission_id, ftype, s3_key). DeleteObject (positional ! 1) s3_key) files \<and>
         (\<exists>tr. trace (delete_by_file_ids w s sys_argv) =
                 tr @ [Print (''\<newline>'' @ replicate 80 CHR ''=''),
                       Print ''SUMMARY'',
                       Print (replicate 80 CHR ''=''),
                       Print (''Successfully deleted: '' @ str_nat deleted_count),
                       Print (''Errors: '' @ str_nat error_count),
                       Print (''Total processed: '' @ str_nat (length files))]) \<and>
         deleted_count + error_count = length files"
proof -
  from load_and_preview_targets [OF assms(5,6,7)] obtain tr
    where tr: "filter is_delete tr = []"
      and run: "load_and_preview w s (positional ! 0) (positional ! 1) (positional ! 2)
          (positional ! 3) (positional ! 4) (normalize_endpoint (positional ! 5))
          (positional ! 6) (arg_dry_run opts) (arg_file_type opts) =
        (if arg_dry_run opts
         then \<lparr>trace = tr @ [Print ''\<newline>[DRY RUN] No files were deleted.'',
                            Print (''Would delete '' @ str_nat (length files) @
                                   '' files from s3://'' @ positional ! 1 @ ''/'')],
               store = s, status = Returned\<rparr>
         else confirm_and_delete w s tr files (positional ! 1) (positional ! 3)
                (positional ! 4) (normalize_endpoint (positional ! 5)) (positional ! 6))"
    by blast
  obtain tr' s' d e where loop: "delete_loop w (positional ! 1) files [] s 0 0 = (tr', s', d, e)"
    by (cases "delete_loop w (positional ! 1) files [] s 0 0") auto
  note props = delete_loop_props [OF loop]
  have de: "d = deleted_count" "e = error_count"
    using props assms(10,11,12) by simp_all
  have sm: "filter is_delete (summary d e n) = []" for n
    by (simp add: summary_def)
  have "status (delete_by_file_ids w s sys_argv) = Returned \<and>
         filter is_delete (trace (delete_by_file_ids w s sys_argv)) =
           map (\<lambda>(submission_id, ftype, s3_key). DeleteObject (positional ! 1) s3_key) files \<and>
         (\<exists>tr. trace (delete_by_file_ids w s sys_argv) =
                 tr @ summary deleted_count error_count (length files)) \<and>
         deleted_count + error_count = length files"
    unfolding main_valid_args [OF assms(1,2,3)] run confirm_given [OF assms(8,9) loop]
    using tr assms(4) props de sm by auto
  then show ?thesis
    unfolding summary_def .
qed

lemma example_parse:
  "parse_args (drop 1 (example_argv [])) =
     Inr ([''ids.json'', ''bucket'', ''data/'', ''key'', ''secret'', ''s3.example.org'', ''eu''],
          \<lparr>arg_dry_run = False, arg_file_type = None\<rparr>)"
  by (simp add: example_argv_def parse_args_def)

lemma refusing_results:
  "call_results (refusing_world (Inr ''DELETE'')) ''bucket''
       [(''S1'', ''nucleotideAlignment'', JStr ''data/a1''),
        (''S2'', ''siloReads'', JStr ''data/b1''),
        (''S2'', ''siloReads'', JStr ''data/b2'')] [''data/a1'', ''data/b1'', ''data/b2'']
     = [None, Some (OtherError ''AccessDenied''), None]"
  by (simp add: refusing_world_def example_world_def s3_world_def s3_delete_def)

lemma str_nat_digits: "str_nat 1 = ''1''" "str_nat 2 = ''2''" "str_nat 3 = ''3''"
  by (simp_all add: str_nat.simps)

theorem deletion_loop_attempts_every_target_witness:
  "parse_args (drop 1 (example_argv [])) =
     Inr ([''ids.json'', ''bucket'', ''data/'', ''key'', ''secret'', ''s3.example.org'', ''eu''],
          \<lparr>arg_dry_run = False, arg_file_type = None\<rparr>) \<and>
   call_results (refusing_world (Inr ''DELETE'')) ''bucket''
       [(''S1'', ''nucleotideAlignment'', JStr ''data/a1''),
        (''S2'', ''siloReads'', JStr ''data/b1''),
        (''S2'', ''siloReads'', JStr ''data/b2'')] [''data/a1'', ''data/b1'', ''data/b2'']
     = [None, Some (OtherError ''AccessDenied''), None] \<and>
   status (delete_by_file_ids (refusing_world (Inr ''DELETE''))
             [''data/a1'', ''data/b1'', ''data/b2''] (example_argv [])) = Returned \<and>
   filter is_delete (trace (delete_by_file_ids (refusing_world (Inr ''DELETE''))
             [''data/a1'', ''data/b1'', ''data/b2''] (example_argv []))) =
     [DeleteObject ''bucket'' (JStr ''data/a1''), DeleteObject ''bucket'' (JStr ''data/b1''),
      DeleteObject ''bucket'' (JStr ''data/b2'')] \<and>
   (\<exists>tr. trace (delete_by_file_ids (refusing_world (Inr ''DELETE''))
             [''data/a1'', ''data/b1'', ''data/b2''] (example_argv [])) =
      tr @ [Print (''\<newline>'' @ replicate 80 CHR ''=''),
            Print ''SUMMARY'',
            Print (replicate 80 CHR ''=''),
            Print ''Successfully deleted: 2'',
            Print ''Errors: 1'',
            Print ''Total processed: 3''])"
proof -
  let ?w = "refusing_world (Inr ''DELETE'')"
  let ?pos = "[''ids.json'', ''bucket'', ''data/'', ''key'', ''secret'', ''s3.example.org'', ''eu'']"
  let ?opts = "\<lparr>arg_dry_run = False, arg_file_type = None\<rparr>"
  let ?files = "[(''S1'', ''nucleotideAlignment'', JStr ''data/a1''),
        (''S2'', ''siloReads'', JStr ''data/b1''),
        (''S2'', ''siloReads'', JStr ''data/b2'')]"
  have b: "?pos ! 1 = ''bucket''" by simp
  have h2: "7 \<le> length ?pos" by simp
  have h3: "\<not> rejected_type (arg_file_type ?opts)" by (simp add: rejected_type_def)
  have h4: "\<not> arg_dry_run ?opts" by simp
  have h5: "read_json ?w (?pos ! 0) = Inr example_doc"
    by (simp add: refusing_world_def example_world_def s3_world_def)
  have h6: "collect_files_to_delete (py_str ?w) example_doc (?pos ! 2) (arg_file_type ?opts)
              = Inr ?files"
    by (simp add: example_targets)
  have h7: "?files \<noteq> []" by simp
  have h8: "read_input ?w = Inr ''DELETE''"
    by (simp add: refusing_world_def example_world_def s3_world_def)
  have h9: "boto3_client ?w (?pos ! 3) (?pos ! 4) (normalize_endpoint (?pos ! 5)) (?pos ! 6) = None"
    by (simp add: refusing_world_def example_world_def s3_world_def)
  have h10: "[None, Some (OtherError ''AccessDenied''), None] =
      call_results ?w (?pos ! 1) ?files [''data/a1'', ''data/b1'', ''data/b2'']"
    unfolding b by (rule refusing_results [symmetric])
  have h11: "2 = length (filter (\<lambda>r. r = None) [None, Some (OtherError ''AccessDenied''), None])"
    by simp
  have h12: "1 = length (filter (\<lambda>r. r \<noteq> None) [None, Some (OtherError ''AccessDenied''), None])"
    by simp
  have len: "length ?files = 3" by simp
  note run = deletion_loop_attempts_every_target
    [OF example_parse h2 h3 h4 h5 h6 h7 h8 h9 h10 h11 h12, unfolded b len]
  from run have deletes: "filter is_delete (trace (delete_by_file_ids ?w
             [''data/a1'', ''data/b1'', ''data/b2''] (example_argv []))) =
     [DeleteObject ''bucket'' (JStr ''data/a1''), DeleteObject ''bucket'' (JStr ''data/b1''),
      DeleteObject ''bucket'' (JStr ''data/b2'')]"
    by simp
  have lines: "''Successfully deleted: '' @ ''2'' = ''Successfully deleted: 2''"
    "''Errors: '' @ ''1'' = ''Errors: 1''"
    "''Total processed: '' @ ''3'' = ''Total processed: 3''"
    by simp_all
  from run have summ: "\<exists>tr. trace (delete_by_file_ids ?w
             [''data/a1'', ''data/b1'', ''data/b2''] (example_argv [])) =
      tr @ [Print (''\<newline>'' @ replicate 80 CHR ''=''),
            Print ''SUMMARY'',
            Print (replicate 80 CHR ''=''),
            Print ''Successfully deleted: 2'',
            Print ''Errors: 1'',
            Print ''Total processed: 3'']"
    unfolding str_nat_digits lines by blast
  from run example_parse refusing_results deletes summ show ?thesis
    by blast
qed

lemma load_and_preview_dry_count:
  assumes "read_json w path = Inr file_ids"
    and "collect_files_to_delete (py_str w) file_ids prefix ft = Inr files"
  shows "status (load_and_preview w s path bucket prefix access secret endpoint region True ft)
           = Returned \<and>
         Print (''Found '' @ str_nat (length files) @ '' files to delete'')
           \<in> set (trace (load_and_preview w s path bucket prefix access secret endpoint region
                            True ft)) \<and>
         (files \<noteq> [] \<longrightarrow>
            last (trace (load_and_preview w s path bucket prefix access secret endpoint region
                            True ft)) =
            Print (''Would delete '' @ str_nat (length files) @ '' files from s3://'' @
                   bucket @ ''/''))"
proof -
  from collect_JObj [OF assms(2)] obtain items
    where items: "file_ids = JObj items" "py_len file_ids = Inr (length items)" by blast
  with assms show ?thesis
    by (simp add: load_and_preview_def Let_def)
qed

text \<open>
  C2, as stated, fails: with \<^verbatim>\<open>--dry-run\<close> set and the other arguments
  \<^verbatim>\<open>--type bogus\<close>, the program prints the error about the type and exits with code 1,
  without printing any count.
\<close>

theorem dry_run_counterexample:
  "dry_run_set (example_argv [''--type'', ''bogus'', ''--dry-run'']) \<and>
   delete_by_file_ids (example_world (Inr ''DELETE'')) [''data/a1'']
       (example_argv [''--type'', ''bogus'', ''--dry-run'']) =
     \<lparr>trace = [Print (''Error: --type must be 'nucleotideAlignment' or 'siloReads', got '' @
                       [CHR 0x27] @ ''bogus'' @ [CHR 0x27])],
      store = [''data/a1''], status = Exited 1\<rparr>"
  by (simp add: dry_run_set_def delete_by_file_ids_def example_argv_def parse_args_def
      rejected_type_def)

text \<open>
  C2, amended. When \<^verbatim>\<open>--dry-run\<close> is set, for every document, every other argument and every
  world, the program calls \<^verbatim>\<open>delete_object\<close> never, reads no confirmation, creates no
  client and leaves the store as it was. When moreover the arguments are valid and the
  document is read and collected, it prints the total target count and returns; with a
  non-empty target list the count is also in its last line.
\<close>

theorem dry_run_deletes_nothing:
  "(dry_run_set sys_argv \<longrightarrow>
      filter is_delete (trace (delete_by_file_ids w s sys_argv)) = [] \<and>
      filter is_input (trace (delete_by_file_ids w s sys_argv)) = [] \<and>
      filter is_client (trace (delete_by_file_ids w s sys_argv)) = [] \<and>
      store (delete_by_file_ids w s sys_argv) = s) \<and>
   (parse_args (drop 1 sys_argv) = Inr (positional, opts) \<and> arg_dry_run opts \<and>
    7 \<le> length positional \<and> \<not> rejected_type (arg_file_type opts) \<and>
    read_json w (positional ! 0) = Inr file_ids \<and>
    collect_files_to_delete (py_str w) file_ids (positional ! 2) (arg_file_type opts) = Inr files
    \<longrightarrow>
      status (delete_by_file_ids w s sys_argv) = Returned \<and>
      Print (''Found '' @ str_nat (length files) @ '' files to delete'')
        \<in> set (trace (delete_by_file_ids w s sys_argv)) \<and>
      (files \<noteq> [] \<longrightarrow>
         last (trace (delete_by_file_ids w s sys_argv)) =
         Print (''Would delete '' @ str_nat (length files) @ '' files from s3://'' @
                positional ! 1 @ ''/'')))"
proof (intro conjI impI)
  assume dry: "dry_run_set sys_argv"
  with main_not_confirmed [of sys_argv w s]
  show "filter is_delete (trace (delete_by_file_ids w s sys_argv)) = []"
    "filter is_client (trace (delete_by_file_ids w s sys_argv)) = []"
    "store (delete_by_file_ids w s sys_argv) = s"
    by simp_all
  from dry show "filter is_input (trace (delete_by_file_ids w s sys_argv)) = []"
    by (rule main_dry_no_input)
next
  assume a: "parse_args (drop 1 sys_argv) = Inr (positional, opts) \<and> arg_dry_run opts \<and>
    7 \<le> length positional \<and> \<not> rejected_type (arg_file_type opts) \<and>
    read_json w (positional ! 0) = Inr file_ids \<and>
    collect_files_to_delete (py_str w) file_ids (positional ! 2) (arg_file_type opts) = Inr files"
  then have main: "delete_by_file_ids w s sys_argv =
     load_and_preview w s (positional ! 0) (positional ! 1) (positional ! 2) (positional ! 3)
       (positional ! 4) (normalize_endpoint (positional ! 5)) (positional ! 6)
       True (arg_file_type opts)"
    using main_valid_args [of sys_argv positional opts w s] by simp
  from a have r: "read_json w (positional ! 0) = Inr file_ids"
    and c: "collect_files_to_delete (py_str w) file_ids (positional ! 2) (arg_file_type opts)
              = Inr files"
    by simp_all
  note count = load_and_preview_dry_count [OF r c, of s "positional ! 1" "positional ! 3"
      "positional ! 4" "normalize_endpoint (positional ! 5)" "positional ! 6"]
  from count show "status (delete_by_file_ids w s sys_argv) = Returned"
    unfolding main by blast
  from count show "Print (''Found '' @ str_nat (length files) @ '' files to delete'')
        \<in> set (trace (delete_by_file_ids w s sys_argv))"
    unfolding main by blast
  assume "files \<noteq> []"
  with count show "last (trace (delete_by_file_ids w s sys_argv)) =
         Print (''Would delete '' @ str_nat (length files) @ '' files from s3://'' @
                positional ! 1 @ ''/'')"
    unfolding main by blast
qed

lemma example_parse_dry:
  "parse_args (drop 1 (example_argv [''--dry-run''])) =
     Inr ([''ids.json'', ''bucket'', ''data/'', ''key'', ''secret'', ''s3.example.org'', ''eu''],
          \<lparr>arg_dry_run = True, arg_file_type = None\<rparr>)"
  by (simp add: example_argv_def parse_args_def)

lemma str_nat_3: "str_nat 3 = ''3''"
  by (simp add: str_nat.simps)

theorem dry_run_deletes_nothing_witness:
  "dry_run_set (example_argv [''--dry-run'']) \<and>
   parse_args (drop 1 (example_argv [''--dry-run''])) =
     Inr ([''ids.json'', ''bucket'', ''data/'', ''key'', ''secret'', ''s3.example.org'', ''eu''],
          \<lparr>arg_dry_run = True, arg_file_type = None\<rparr>) \<and>
   filter is_delete (trace (delete_by_file_ids (example_world (Inr ''DELETE'')) [''data/a1'']
       (example_argv [''--dry-run'']))) = [] \<and>
   filter is_input (trace (delete_by_file_ids (example_world (Inr ''DELETE'')) [''data/a1'']
       (example_argv [''--dry-run'']))) = [] \<and>
   store (delete_by_file_ids (example_world (Inr ''DELETE'')) [''data/a1'']
       (example_argv [''--dry-run''])) = [''data/a1''] \<and>
   status (delete_by_file_ids (example_world (Inr ''DELETE'')) [''data/a1'']
       (example_argv [''--dry-run''])) = Returned \<and>
   Print ''Found 3 files to delete''
     \<in> set (trace (delete_by_file_ids (example_world (Inr ''DELETE'')) [''data/a1'']
       (example_argv [''--dry-run'']))) \<and>
   last (trace (delete_by_file_ids (example_world (Inr ''DELETE'')) [''data/a1'']
       (example_argv [''--dry-run'']))) = Print ''Would delete 3 files from s3://bucket/''"
proof -
  let ?w = "example_world (Inr ''DELETE'')"
  let ?pos = "[''ids.json'', ''bucket'', ''data/'', ''key'', ''secret'', ''s3.example.org'', ''eu'']"
  let ?opts = "\<lparr>arg_dry_run = True, arg_file_type = None\<rparr>"
  let ?files = "[(''S1'', ''nucleotideAlignment'', JStr ''data/a1''),
        (''S2'', ''siloReads'', JStr ''data/b1''),
        (''S2'', ''siloReads'', JStr ''data/b2'')]"
  have dry: "dry_run_set (example_argv [''--dry-run''])"
    unfolding dry_run_set_def example_parse_dry by simp
  have hyp: "parse_args (drop 1 (example_argv [''--dry-run''])) = Inr (?pos, ?opts) \<and>
      arg_dry_run ?opts \<and> 7 \<le> length ?pos \<and> \<not> rejected_type (arg_file_type ?opts) \<and>
      read_json ?w (?pos ! 0) = Inr example_doc \<and>
      collect_files_to_delete (py_str ?w) example_doc (?pos ! 2) (arg_file_type ?opts)
        = Inr ?files"
    using example_parse_dry
    by (simp add: rejected_type_def example_targets) (simp add: example_world_def s3_world_def)
  have b: "?pos ! 1 = ''bucket''" and len: "length ?files = 3" and ne: "?files \<noteq> []"
    by simp_all
  note run = dry_run_deletes_nothing [of "example_argv [''--dry-run'']" ?w "[''data/a1'']"
      ?pos ?opts example_doc ?files, unfolded b len str_nat_3]
  from run dry hyp ne example_parse_dry show ?thesis
    by simp
qed

lemma nonempty_unknown_type_rejected:
  assumes "parse_args (drop 1 sys_argv) = Inr (positional, opts)"
    and "7 \<le> length positional"
    and "arg_file_type opts = Some t"
    and "t \<noteq> []" and "t \<noteq> ''nucleotideAlignment''" and "t \<noteq> ''siloReads''"
  shows "delete_by_file_ids w s sys_argv =
     \<lparr>trace = [Print (''Error: --type must be 'nucleotideAlignment' or 'siloReads', got '' @
                       [CHR 0x27] @ t @ [CHR 0x27])],
      store = s, status = Exited 1\<rparr>"
  using assms by (simp add: delete_by_file_ids_def rejected_type_def Let_def)

lemma too_few_arguments_rejected:
  assumes "parse_args (drop 1 sys_argv) = Inr (positional, opts)"
    and "length positional < 7"
  shows "delete_by_file_ids w s sys_argv =
     \<lparr>trace = map Print usage_text, store = s, status = Exited 1\<rparr>"
  using assms by (simp add: delete_by_file_ids_def)

text \<open>
  C6 fails on the code at \<^verbatim>\<open>--type ""\<close>: the value is present and is neither tag, but the
  test \<^verbatim>\<open>if file_type and ...\<close> lets the empty string through; the program prints no usage
  error, finds no file (the filter excludes both categories) and returns with exit code 0.
  Every other value that is not a tag is rejected (\<open>nonempty_unknown_type_rejected\<close>).
\<close>

theorem empty_type_is_not_rejected:
  "parse_args (drop 1 (example_argv [''--type'', []])) =
     Inr ([''ids.json'', ''bucket'', ''data/'', ''key'', ''secret'', ''s3.example.org'', ''eu''],
          \<lparr>arg_dry_run = False, arg_file_type = Some []\<rparr>) \<and>
   delete_by_file_ids (example_world (Inr ''DELETE'')) [''data/a1'']
       (example_argv [''--type'', []]) =
     \<lparr>trace = [Print ''Loading file IDs from: ids.json'', ReadFile ''ids.json'',
               Print ''Loaded 2 submissions'', Print ''Found 0 files to delete'',
               Print ''No files to delete.''],
      store = [''data/a1''], status = Returned\<rparr> \<and>
   exit_code (status (delete_by_file_ids (example_world (Inr ''DELETE'')) [''data/a1'']
       (example_argv [''--type'', []]))) = 0"
  by (simp add: delete_by_file_ids_def load_and_preview_def delete_eval str_nat.simps)

section \<open>Properties of the Prefix Deleter\<close>

lemma listed_sorted: "sorted (listed prefix token s)" and listed_distinct: "distinct (listed prefix token s)"
  by (simp_all add: listed_def)

lemma set_listed:
  "set (listed prefix token s) =
     {k \<in> set s. startswith k prefix \<and> (case token of None \<Rightarrow> True | Some t \<Rightarrow> t < k)}"
  by (auto simp: listed_def)

lemma listed_after_page:
  assumes n: "0 < n" "n < length (listed prefix token s)"
  shows "listed prefix (Some (last (take n (listed prefix token s))))
           (filter (\<lambda>k. k \<notin> set (take n (listed prefix token s))) s)
         = drop n (listed prefix token s)"
proof -
  let ?M = "listed prefix token s"
  let ?t = "last (take n ?M)"
  have ne: "take n ?M \<noteq> []"
    using n by auto
  have t: "?t = ?M ! (n - 1)"
    using n by (simp add: last_conv_nth [OF ne] min_def)
  have tM: "?t \<in> set ?M"
    unfolding t using n by simp
  have disj: "set (take n ?M) \<inter> set (drop n ?M) = {}"
    using listed_distinct [of prefix token s]
    by (metis append_take_drop_id distinct_append)
  have split: "set ?M = set (take n ?M) \<union> set (drop n ?M)"
    by (metis append_take_drop_id set_append)
  have above: "?t < k" if "k \<in> set (drop n ?M)" for k
  proof -
    from that obtain j where j: "j < length (drop n ?M)" "k = drop n ?M ! j"
      by (auto simp: in_set_conv_nth)
    then have k: "k = ?M ! (n + j)" and nj: "n + j < length ?M"
      using n by simp_all
    have "?M ! (n - 1) \<le> ?M ! (n + j)"
      using listed_sorted [of prefix token s] nj by (intro sorted_nth_mono) simp_all
    moreover have "?M ! (n - 1) \<noteq> ?M ! (n + j)"
      using listed_distinct [of prefix token s] nj n
      by (simp add: nth_eq_iff_index_eq)
    ultimately show ?thesis
      unfolding t k by simp
  qed
  have "set (listed prefix (Some ?t) (filter (\<lambda>k. k \<notin> set (take n ?M)) s)) = set (drop n ?M)"
  proof (intro set_eqI iffI)
    fix k
    assume "k \<in> set (listed prefix (Some ?t) (filter (\<lambda>k. k \<notin> set (take n ?M)) s))"
    then have k: "k \<in> set s" "k \<notin> set (take n ?M)" "startswith k prefix" "?t < k"
      by (simp_all add: set_listed)
    have "case token of None \<Rightarrow> True | Some t0 \<Rightarrow> t0 < k"
    proof (cases token)
      case None
      then show ?thesis by simp
    next
      case (Some t0)
      with tM have "t0 < ?t" by (simp add: set_listed)
      with k(4) Some show ?thesis by simp
    qed
    with k have "k \<in> set ?M" by (simp add: set_listed)
    with k(2) split show "k \<in> set (drop n ?M)" by blast
  next
    fix k
    assume k: "k \<in> set (drop n ?M)"
    with split have "k \<in> set ?M" by blast
    then have "k \<in> set s" "startswith k prefix" by (simp_all add: set_listed)
    moreover from k disj have "k \<notin> set (take n ?M)" by blast
    moreover from k have "?t < k" by (rule above)
    ultimately show "k \<in> set (listed prefix (Some ?t) (filter (\<lambda>k. k \<notin> set (take n ?M)) s))"
      by (simp add: set_listed)
  qed
  moreover have "sorted (drop n ?M)" "distinct (drop n ?M)"
    using listed_sorted [of prefix token s] listed_distinct [of prefix token s]
    by (simp_all add: sorted_wrt_drop)
  ultimately show ?thesis
    using listed_sorted listed_distinct by (metis sorted_distinct_set_unique)
qed

lemma deleted_keys_append [simp]: "deleted_keys (xs @ ys) = deleted_keys xs @ deleted_keys ys"
  by (simp add: deleted_keys_def)

lemma listed_keys_append [simp]: "listed_keys (xs @ ys) = listed_keys xs @ listed_keys ys"
  by (simp add: listed_keys_def)

lemma page_events_keys [simp]:
  "deleted_keys (page_events b ks) = map JStr ks" "listed_keys (page_events b ks) = []"
  by (induction ks) (simp_all add: page_events_def deleted_keys_def listed_keys_def)

lemma page_events_Nil [simp]: "page_events b [] = []"
  by (simp add: page_events_def)

lemma keys_ListObjects [simp]:
  "deleted_keys (ListObjects b p t ks # tr) = deleted_keys tr"
  "listed_keys (ListObjects b p t ks # tr) = ks @ listed_keys tr"
  by (simp_all add: deleted_keys_def listed_keys_def)

lemma delete_page_s3:
  "[] \<notin> set ks \<Longrightarrow>
   delete_page (s3_world n files reply) b ks tr s c =
     (tr @ page_events b ks, filter (\<lambda>k. k \<notin> set ks) s, Inr (c + length ks))"
proof (induction ks arbitrary: tr s c)
  case Nil
  then show ?case by (simp add: page_events_def)
next
  case (Cons k ks)
  from Cons.prems have k: "k \<noteq> []" and ks: "[] \<notin> set ks" by auto
  note IH = Cons.IH [OF ks]
  have del: "delete_object (s3_world n files reply) b (JStr k) s = (None, removeAll k s)"
    using k by (simp add: s3_world_def s3_delete_def)
  have rm: "filter (\<lambda>x. x \<notin> set ks) (removeAll k s) = filter (\<lambda>x. x \<notin> set (k # ks)) s"
    by (induction s) auto
  show ?case
    by (simp add: del IH Let_def rm) (simp add: page_events_def)
qed

lemma delete_pages_s3:
  assumes "0 < n" and "[] \<notin> set s"
  shows "\<exists>tr'. delete_pages (s3_world n files reply) b prefix token tr s c =
           Some (tr @ tr', filter (\<lambda>k. k \<notin> set (listed prefix token s)) s,
                 Inr (c + length (listed prefix token s))) \<and>
         deleted_keys tr' = map JStr (listed prefix token s) \<and>
         listed_keys tr' = listed prefix token s"
  using assms(2)
proof (induction "length (listed prefix token s)" arbitrary: token tr s c rule: less_induct)
  case less
  let ?w = "s3_world n files reply"
  let ?M = "listed prefix token s"
  let ?page = "take n ?M"
  have list: "list_objects_v2 ?w b prefix token s =
      Inr \<lparr>contents = (if ?page = [] then None else Some ?page),
           next_token = (if n < length ?M then Some (last ?page) else None)\<rparr>"
    by (simp add: s3_world_def s3_list_def Let_def)
  have valid: "[] \<notin> set ?M" "[] \<notin> set ?page"
    using less.prems by (auto simp add: set_listed dest: in_set_takeD)
  have keys: "(case (if ?page = [] then None else Some ?page) of None \<Rightarrow> [] | Some ks \<Rightarrow> ks) = ?page"
    by simp
  show ?case
  proof (cases "n < length ?M")
    case False
    then have page: "?page = ?M" by simp
    have "delete_pages ?w b prefix token tr s c =
        Some (tr @ (ListObjects b prefix token ?M # page_events b ?M),
              filter (\<lambda>k. k \<notin> set ?M) s, Inr (c + length ?M))"
      using False
      by (subst delete_pages.simps) (simp add: list Let_def delete_page_s3 [OF valid(1)] page del: take_all)
    moreover have "deleted_keys (ListObjects b prefix token ?M # page_events b ?M) = map JStr ?M"
      "listed_keys (ListObjects b prefix token ?M # page_events b ?M) = ?M"
      by simp_all
    ultimately show ?thesis by blast
  next
    case True
    let ?t = "last ?page"
    let ?s1 = "filter (\<lambda>k. k \<notin> set ?page) s"
    let ?tr1 = "tr @ (ListObjects b prefix token ?page # page_events b ?page)"
    have next_list: "listed prefix (Some ?t) ?s1 = drop n ?M"
      using assms(1) True by (rule listed_after_page)
    have len: "length (listed prefix (Some ?t) ?s1) < length ?M"
      using assms(1) True by (simp add: next_list)
    have valid1: "[] \<notin> set ?s1"
      using less.prems by simp
    from less.hyps [OF len valid1, of ?tr1 "c + length ?page"] obtain tr2
      where rec: "delete_pages ?w b prefix (Some ?t) ?tr1 ?s1 (c + length ?page) =
          Some (?tr1 @ tr2, filter (\<lambda>k. k \<notin> set (drop n ?M)) ?s1,
                Inr (c + length ?page + length (drop n ?M)))"
        and del2: "deleted_keys tr2 = map JStr (drop n ?M)"
        and lst2: "listed_keys tr2 = drop n ?M"
      unfolding next_list by blast
    have store: "filter (\<lambda>k. k \<notin> set (drop n ?M)) ?s1 = filter (\<lambda>k. k \<notin> set ?M) s"
    proof -
      have "set ?M = set ?page \<union> set (drop n ?M)"
        by (metis append_take_drop_id set_append)
      then show ?thesis by (auto intro: filter_cong)
    qed
    have count: "c + length ?page + length (drop n ?M) = c + length ?M"
      using True by simp
    have ne: "?page \<noteq> []"
      using assms(1) True by auto
    have list': "list_objects_v2 ?w b prefix token s =
        Inr \<lparr>contents = Some ?page, next_token = Some ?t\<rparr>"
      using True ne by (simp add: list)
    have rec': "delete_pages ?w b prefix (Some ?t) ?tr1 ?s1 (c + length ?page) =
          Some (tr @ (ListObjects b prefix token ?page # page_events b ?page) @ tr2,
                filter (\<lambda>k. k \<notin> set ?M) s, Inr (c + length ?M))"
      unfolding rec store count by simp
    have run: "delete_pages ?w b prefix token tr s c =
        Some (tr @ (ListObjects b prefix token ?page # page_events b ?page) @ tr2,
              filter (\<lambda>k. k \<notin> set ?M) s, Inr (c + length ?M))"
      by (subst delete_pages.simps)
         (simp only: list' Let_def delete_page_s3 [OF valid(2)] rec' sum.case option.case prod.case
            page.select_convs append_assoc append_Cons append_Nil)
    have "deleted_keys ((ListObjects b prefix token ?page # page_events b ?page) @ tr2)
            = map JStr ?M"
      using del2 by (simp flip: map_append)
    moreover have
      "listed_keys ((ListObjects b prefix token ?page # page_events b ?page) @ tr2) = ?M"
      using lst2 by simp
    ultimately have "deleted_keys ((ListObjects b prefix token ?page # page_events b ?page) @ tr2)
            = map JStr ?M \<and>
      listed_keys ((ListObjects b prefix token ?page # page_events b ?page) @ tr2) = ?M"
      by blast
    with run show ?thesis by blast
  qed
qed

lemma delete_page_any:
  "delete_page w b ks tr s c = (tr', s', Inr c') \<Longrightarrow>
     tr' = tr @ page_events b ks \<and> c' = c + length ks"
proof (induction ks arbitrary: tr s c)
  case Nil
  then show ?case by (simp add: page_events_def)
next
  case (Cons k ks)
  obtain e s1 where d: "delete_object w b (JStr k) s = (e, s1)"
    by (cases "delete_object w b (JStr k) s") auto
  show ?case
  proof (cases e)
    case None
    with Cons.prems d have
      "delete_page w b ks (tr @ [Print (''Deleting: '' @ k), DeleteObject b (JStr k)]) s1 (c + 1)
         = (tr', s', Inr c')"
      by (simp add: Let_def)
    from Cons.IH [OF this] show ?thesis
      by (simp add: page_events_def)
  next
    case (Some e')
    with Cons.prems d show ?thesis by (simp add: Let_def)
  qed
qed

lemma delete_pages_any_res:
  assumes "delete_pages w b prefix token tr s c = Some res"
  shows "\<forall>c'. snd (snd res) = Inr c' \<longrightarrow>
          (\<exists>tr2. fst res = tr @ tr2 \<and> deleted_keys tr2 = map JStr (listed_keys tr2) \<and>
                 c' = c + length (listed_keys tr2))"
  using assms
proof (induct rule: delete_pages.raw_induct [rotated 1, consumes 1])
  case (1 f w0 b0 p0 tok0 tr0 s0 c0 res)
  show ?case
  proof (cases "list_objects_v2 w0 b0 p0 tok0 s0")
    case (Inl e)
    with 1(2) show ?thesis by auto
  next
    case (Inr page)
    define ks where "ks = (case contents page of None \<Rightarrow> [] | Some ks \<Rightarrow> ks)"
    obtain tr1 s1 r1 where dp:
      "delete_page w0 b0 ks (tr0 @ [ListObjects b0 p0 tok0 ks]) s0 c0 = (tr1, s1, r1)"
      by (cases "delete_page w0 b0 ks (tr0 @ [ListObjects b0 p0 tok0 ks]) s0 c0") auto
    show ?thesis
    proof (cases r1)
      case (Inl e)
      with 1(2) Inr dp have "res = (tr1, s1, Inl e)" by (simp add: Let_def ks_def)
      then show ?thesis by simp
    next
      case r1: (Inr c1)
      from delete_page_any [OF dp [unfolded r1]]
      have tr1: "tr1 = (tr0 @ [ListObjects b0 p0 tok0 ks]) @ page_events b0 ks"
        and c1: "c1 = c0 + length ks" by simp_all
      show ?thesis
      proof (cases "next_token page")
        case None
        with 1(2) Inr dp r1 have res: "res = (tr1, s1, Inr c1)"
          by (simp add: Let_def ks_def)
        show ?thesis
          unfolding res using tr1 c1
          by (intro allI impI exI [of _ "ListObjects b0 p0 tok0 ks # page_events b0 ks"])
             simp
      next
        case (Some t)
        with 1(2) Inr dp r1 have rec: "f w0 b0 p0 (Some t) tr1 s1 c1 = Some res"
          by (simp add: Let_def ks_def)
        show ?thesis
        proof (intro allI impI)
          fix c' assume "snd (snd res) = Inr c'"
          with 1(1) [OF rec] obtain tr2 where
            t2: "fst res = tr1 @ tr2" "deleted_keys tr2 = map JStr (listed_keys tr2)"
                "c' = c1 + length (listed_keys tr2)"
            by blast
          show "\<exists>tr2. fst res = tr0 @ tr2 \<and> deleted_keys tr2 = map JStr (listed_keys tr2) \<and>
                  c' = c0 + length (listed_keys tr2)"
            using t2 tr1 c1
            by (intro exI [of _ "(ListObjects b0 p0 tok0 ks # page_events b0 ks) @ tr2"])
               simp
        qed
      qed
    qed
  qed
qed

lemma delete_pages_any:
  assumes "delete_pages w b prefix token tr s c = Some (tr', s', Inr c')"
  shows "\<exists>tr2. tr' = tr @ tr2 \<and> deleted_keys tr2 = map JStr (listed_keys tr2) \<and>
               c' = c + length (listed_keys tr2)"
  using delete_pages_any_res [OF assms] by simp

lemma filter_not_listed:
  "filter (\<lambda>k. k \<notin> set (listed prefix None keys)) keys =
   filter (\<lambda>k. \<not> startswith k prefix) keys"
  by (rule filter_cong) (auto simp add: set_listed)

lemma filter_member_imp:
  "filter (\<lambda>k. k \<in> set keys \<longrightarrow> P k) keys = filter P keys"
  by (rule filter_cong) auto

lemma listed_None:
  "listed prefix None keys = sort (remdups (filter (\<lambda>k. startswith k prefix) keys))"
  by (simp add: listed_def)

lemma prefix_deleter_reference_store:
  assumes "0 < page_size" and "7 \<le> length sys_argv" and "[] \<notin> set keys"
  shows "\<exists>r. delete_s3_files (s3_world page_size files reply) keys sys_argv = Some r \<and>
           status r = Returned \<and>
           listed_keys (trace r) =
             sort (remdups (filter (\<lambda>k. startswith k (sys_argv ! 2)) keys)) \<and>
           deleted_keys (trace r) = map JStr (listed_keys (trace r)) \<and>
           store r = filter (\<lambda>k. \<not> startswith k (sys_argv ! 2)) keys \<and>
           last (trace r) =
             Print (''Deleted '' @ str_nat (length (deleted_keys (trace r))) @
                    '' objects from '' @ sys_argv ! 1 @ ''/'' @ sys_argv ! 2)"
proof -
  let ?w = "s3_world page_size files reply"
  let ?tr = "[Client (sys_argv ! 3) (sys_argv ! 4) (sys_argv ! 5) (sys_argv ! 6)]"
  from delete_pages_s3 [OF assms(1,3), where files = files and reply = reply
      and b = "sys_argv ! 1" and prefix = "sys_argv ! 2" and token = None and tr = ?tr and c = 0]
  obtain tr' where
    run: "delete_pages ?w (sys_argv ! 1) (sys_argv ! 2) None ?tr keys 0 =
            Some (?tr @ tr',
                  filter (\<lambda>k. k \<notin> set (listed (sys_argv ! 2) None keys)) keys,
                  Inr (0 + length (listed (sys_argv ! 2) None keys)))"
    and del: "deleted_keys tr' = map JStr (listed (sys_argv ! 2) None keys)"
    and lst: "listed_keys tr' = listed (sys_argv ! 2) None keys"
    by blast
  have client: "boto3_client ?w (sys_argv ! 3) (sys_argv ! 4) (sys_argv ! 5) (sys_argv ! 6) = None"
    by (simp add: s3_world_def)
  have len: "\<not> length sys_argv < 7" using assms(2) by simp
  let ?L = "listed (sys_argv ! 2) None keys"
  let ?line = "Print (''Deleted '' @ str_nat (0 + length ?L) @ '' objects from '' @
                      sys_argv ! 1 @ ''/'' @ sys_argv ! 2)"
  let ?r = "\<lparr>trace = (?tr @ tr') @ [?line],
            store = filter (\<lambda>k. k \<notin> set ?L) keys, status = Returned\<rparr>"
  have main: "delete_s3_files ?w keys sys_argv = Some ?r"
    unfolding delete_s3_files_def
    by (simp only: len if_False Let_def client option.case run prod.case sum.case)
  have lk: "listed_keys (trace ?r) = ?L"
    using lst by (simp add: listed_keys_def)
  have dk: "deleted_keys (trace ?r) = map JStr ?L"
    using del by (simp add: deleted_keys_def)
  have "status ?r = Returned \<and>
        listed_keys (trace ?r) =
          sort (remdups (filter (\<lambda>k. startswith k (sys_argv ! 2)) keys)) \<and>
        deleted_keys (trace ?r) = map JStr (listed_keys (trace ?r)) \<and>
        store ?r = filter (\<lambda>k. \<not> startswith k (sys_argv ! 2)) keys \<and>
        last (trace ?r) =
          Print (''Deleted '' @ str_nat (length (deleted_keys (trace ?r))) @
                 '' objects from '' @ sys_argv ! 1 @ ''/'' @ sys_argv ! 2)"
    unfolding dk lk by (simp add: filter_not_listed filter_member_imp listed_None)
  with main show ?thesis by blast
qed

lemma prefix_deleter_any_store:
  assumes "delete_s3_files w s sys_argv = Some r" and "status r = Returned"
  shows "deleted_keys (trace r) = map JStr (listed_keys (trace r)) \<and>
         last (trace r) =
           Print (''Deleted '' @ str_nat (length (deleted_keys (trace r))) @
                  '' objects from '' @ sys_argv ! 1 @ ''/'' @ sys_argv ! 2)"
proof -
  let ?tr = "[Client (sys_argv ! 3) (sys_argv ! 4) (sys_argv ! 5) (sys_argv ! 6)]"
  from assms have len: "\<not> length sys_argv < 7"
    by (auto simp add: delete_s3_files_def)
  from assms len have client:
    "boto3_client w (sys_argv ! 3) (sys_argv ! 4) (sys_argv ! 5) (sys_argv ! 6) = None"
    by (auto simp add: delete_s3_files_def Let_def split: option.splits)
  from assms len client obtain tr' s' c' where
    run: "delete_pages w (sys_argv ! 1) (sys_argv ! 2) None ?tr s 0 = Some (tr', s', Inr c')"
    and r: "r = \<lparr>trace = tr' @ [Print (''Deleted '' @ str_nat c' @ '' objects from '' @
                                      sys_argv ! 1 @ ''/'' @ sys_argv ! 2)],
                 store = s', status = Returned\<rparr>"
    by (auto simp add: delete_s3_files_def Let_def split: option.splits sum.splits)
  from delete_pages_any [OF run] obtain tr2 where
    t: "tr' = ?tr @ tr2" "deleted_keys tr2 = map JStr (listed_keys tr2)"
       "c' = 0 + length (listed_keys tr2)"
    by blast
  have lk: "listed_keys (trace r) = listed_keys tr2"
    unfolding r t(1) by (simp add: listed_keys_def)
  have dk: "deleted_keys (trace r) = deleted_keys tr2"
    unfolding r t(1) by (simp add: deleted_keys_def)
  show ?thesis
    unfolding lk dk using t(2,3) by (simp add: r)
qed

text \<open>
  C8. Whatever the store answers, a run of the Prefix Deleter that returns has asked the
  store to delete exactly the keys that the listings returned to it, each once and in
  their order, and its last line reports their number. On the reference store, for every
  store contents (no object has the empty key), every positive page size and every
  prefix, the run does return, through as many pages as the listing needs: the keys listed
  and deleted are the keys of the store that start with the prefix, the store is left with
  exactly the other keys, and the count printed is the number of keys deleted.
\<close>

theorem prefix_deleter_deletes_listed:
  "(delete_s3_files w s sys_argv = Some r \<and> status r = Returned \<longrightarrow>
      deleted_keys (trace r) = map JStr (listed_keys (trace r)) \<and>
      last (trace r) =
        Print (''Deleted '' @ str_nat (length (deleted_keys (trace r))) @
               '' objects from '' @ sys_argv ! 1 @ ''/'' @ sys_argv ! 2)) \<and>
   (0 < page_size \<and> 7 \<le> length argv \<and> [] \<notin> set keys \<longrightarrow>
      (\<exists>r'. delete_s3_files (s3_world page_size files reply) keys argv = Some r' \<and>
         status r' = Returned \<and>
         listed_keys (trace r') = sort (remdups (filter (\<lambda>k. startswith k (argv ! 2)) keys)) \<and>
         deleted_keys (trace r') = map JStr (listed_keys (trace r')) \<and>
         store r' = filter (\<lambda>k. \<not> startswith k (argv ! 2)) keys \<and>
         last (trace r') =
           Print (''Deleted '' @ str_nat (length (deleted_keys (trace r'))) @
                  '' objects from '' @ argv ! 1 @ ''/'' @ argv ! 2)))"
proof (intro conjI impI)
  assume a: "delete_s3_files w s sys_argv = Some r \<and> status r = Returned"
  from a have a1: "delete_s3_files w s sys_argv = Some r" and a2: "status r = Returned"
    by simp_all
  from prefix_deleter_any_store [OF a1 a2]
  show "deleted_keys (trace r) = map JStr (listed_keys (trace r))"
    and "last (trace r) =
        Print (''Deleted '' @ str_nat (length (deleted_keys (trace r))) @
               '' objects from '' @ sys_argv ! 1 @ ''/'' @ sys_argv ! 2)"
    by simp_all
next
  assume b: "0 < page_size \<and> 7 \<le> length argv \<and> [] \<notin> set keys"
  then have b1: "0 < page_size" and b2: "7 \<le> length argv" and b3: "[] \<notin> set keys"
    by simp_all
  from prefix_deleter_reference_store [OF b1 b2 b3]
  show "\<exists>r'. delete_s3_files (s3_world page_size files reply) keys argv = Some r' \<and>
         status r' = Returned \<and>
         listed_keys (trace r') = sort (remdups (filter (\<lambda>k. startswith k (argv ! 2)) keys)) \<and>
         deleted_keys (trace r') = map JStr (listed_keys (trace r')) \<and>
         store r' = filter (\<lambda>k. \<not> startswith k (argv ! 2)) keys \<and>
         last (trace r') =
           Print (''Deleted '' @ str_nat (length (deleted_keys (trace r'))) @
                  '' objects from '' @ argv ! 1 @ ''/'' @ argv ! 2)" .
qed

lemma example_listing:
  "sort (remdups (filter (\<lambda>k. startswith k ''p/'') [''p/1'', ''p/2'', ''q/1''])) =
     [''p/1'', ''p/2'']"
  by (simp add: startswith_def)

lemma example_remaining:
  "filter (\<lambda>k. \<not> startswith k ''p/'') [''p/1'', ''p/2'', ''q/1''] = [''q/1'']"
  by (simp add: startswith_def)

theorem prefix_deleter_deletes_listed_witness:
  "\<exists>r. delete_s3_files (example_world (Inl EOFError)) [''p/1'', ''p/2'', ''q/1'']
          [''delete_s3_files.py'', ''bucket'', ''p/'', ''key'', ''secret'', ''s3.example.org'',
           ''eu''] = Some r \<and>
       status r = Returned \<and>
       listed_keys (trace r) = [''p/1'', ''p/2''] \<and>
       deleted_keys (trace r) = [JStr ''p/1'', JStr ''p/2''] \<and>
       store r = [''q/1''] \<and>
       last (trace r) = Print ''Deleted 2 objects from bucket/p/''"
proof -
  let ?argv = "[''delete_s3_files.py'', ''bucket'', ''p/'', ''key'', ''secret'',
                ''s3.example.org'', ''eu'']"
  let ?keys = "[''p/1'', ''p/2'', ''q/1'']"
  have h: "0 < (1 :: nat) \<and> 7 \<le> length ?argv \<and> [] \<notin> set ?keys" by simp
  have a1: "?argv ! 1 = ''bucket''" and a2: "?argv ! 2 = ''p/''" by simp_all
  have len: "length [JStr ''p/1'', JStr ''p/2''] = 2" by simp
  note inst = prefix_deleter_deletes_listed [where page_size = 1 and argv = ?argv
      and files = "\<lambda>path. Inr example_doc" and reply = "Inl EOFError" and keys = ?keys
      and w = "example_world (Inl EOFError)" and s = ?keys and sys_argv = ?argv,
      folded example_world_def, unfolded a1 a2 example_listing example_remaining]
  from inst [THEN conjunct2, rule_format, OF h]
  obtain r where r:
    "delete_s3_files (example_world (Inl EOFError)) ?keys ?argv = Some r"
    "status r = Returned"
    "listed_keys (trace r) = [''p/1'', ''p/2'']"
    "store r = [''q/1'']"
    by blast
  from inst [THEN conjunct1, rule_format, of r] r(1,2)
  have g: "deleted_keys (trace r) = map JStr (listed_keys (trace r))"
    "last (trace r) = Print (''Deleted '' @ str_nat (length (deleted_keys (trace r))) @
                    '' objects from '' @ ''bucket'' @ ''/'' @ ''p/'')"
    by simp_all
  from g(1) r(3) have d: "deleted_keys (trace r) = [JStr ''p/1'', JStr ''p/2'']" by simp
  from g(2) have l: "last (trace r) = Print ''Deleted 2 objects from bucket/p/''"
    unfolding d len str_nat_digits by simp
  from r d l show ?thesis by blast
qed

end
